theory Spec2Isabelle
  imports Complex_Main
begin

section \<open>Text primitives used by the package scripts\<close>

text \<open>
  Python \<open>str\<close> and \<open>bytes\<close> values are modelled as \<open>string\<close> (a list of
  characters). A character stands for one code point below 256; the patterns of the scripts
  only ever name ASCII characters, so a character outside ASCII can only fall into a
  negated class.
\<close>

definition starts_with :: "string \<Rightarrow> string \<Rightarrow> bool" where
  "starts_with lit s = (take (length lit) s = lit)"

text \<open>Python's \<open>sub in s\<close> on strings: \<open>sub\<close> occurs somewhere in \<open>s\<close>.\<close>

fun contains :: "string \<Rightarrow> string \<Rightarrow> bool" where
  "contains sub [] = (sub = [])"
| "contains sub (c # cs) = (starts_with sub (c # cs) \<or> contains sub cs)"

text \<open>The character class \<open>[a-zA-Z0-9_-]\<close>.\<close>

definition id_char :: "char \<Rightarrow> bool" where
  "id_char c =
     (let n = (of_char c :: nat)
      in 97 \<le> n \<and> n \<le> 122 \<or> 65 \<le> n \<and> n \<le> 90 \<or> 48 \<le> n \<and> n \<le> 57 \<or> n = 95 \<or> n = 45)"

text \<open>
  The class \<open>\s\<close> of a \<open>str\<close> pattern, on code points below 256: tab to carriage
  return, the four separators 28 to 31, space, NEL (133) and the no-break space (160).
  \<open>non_space\<close> is \<open>[^\s]\<close>.
\<close>

definition py_space :: "char \<Rightarrow> bool" where
  "py_space c =
     (let n = (of_char c :: nat)
      in 9 \<le> n \<and> n \<le> 13 \<or> 28 \<le> n \<and> n \<le> 32 \<or> n = 133 \<or> n = 160)"

definition non_space :: "char \<Rightarrow> bool" where
  "non_space c = (\<not> py_space c)"

text \<open>
  Every regular expression of the scripts is a literal followed by one character class
  under \<open>+\<close>: \<open>lit[cls]+\<close>. \<open>match_here lit cls s\<close> is the match of that
  pattern anchored at the start of \<open>s\<close>: the literal, then the longest non-empty run of
  class characters (the run is greedy and nothing follows it in the pattern, so there is
  no backtracking). The result is the text of the class run.
\<close>

definition match_here :: "string \<Rightarrow> (char \<Rightarrow> bool) \<Rightarrow> string \<Rightarrow> string option" where
  "match_here lit cls s =
     (if starts_with lit s
      then (let g = takeWhile cls (drop (length lit) s)
            in if g = [] then None else Some g)
      else None)"

text \<open>
  \<open>re.search\<close>: the start positions are tried from left to right and the first position
  with a match wins. The result is the class run of that match (group 1 where the pattern
  has a group).
\<close>

fun re_search :: "string \<Rightarrow> (char \<Rightarrow> bool) \<Rightarrow> string \<Rightarrow> string option" where
  "re_search lit cls [] = match_here lit cls []"
| "re_search lit cls (c # cs) =
     (case match_here lit cls (c # cs) of
        Some g \<Rightarrow> Some g
      | None \<Rightarrow> re_search lit cls cs)"

text \<open>
  \<open>re.findall\<close> for a pattern without a group: the texts of all non-overlapping matches,
  left to right; the scan resumes right after each match.
\<close>

function re_findall :: "string \<Rightarrow> (char \<Rightarrow> bool) \<Rightarrow> string \<Rightarrow> string list" where
  "re_findall lit cls s =
     (case match_here lit cls s of
        Some g \<Rightarrow> (lit @ g) # re_findall lit cls (drop (length lit + length g) s)
      | None \<Rightarrow> (case s of [] \<Rightarrow> [] | c # cs \<Rightarrow> re_findall lit cls cs))"
  by pat_completeness auto

lemma match_here_SomeD:
  "match_here lit cls s = Some g \<Longrightarrow> g \<noteq> [] \<and> s = lit @ g @ drop (length lit + length g) s"
  unfolding match_here_def starts_with_def Let_def
  by (auto split: if_splits)
     (metis append_take_drop_id drop_drop add.commute takeWhile_dropWhile_id
            length_takeWhile_le takeWhile_eq_take append_eq_conv_conj)

termination re_findall
proof (relation "measure (\<lambda>(lit, cls, s). length s)")
  show "wf (measure (\<lambda>(lit, cls, s). length s))" by simp
next
  fix lit :: string and cls :: "char \<Rightarrow> bool" and s g
  assume "match_here lit cls s = Some g"
  then have "g \<noteq> []" and "s = lit @ g @ drop (length lit + length g) s"
    using match_here_SomeD by blast+
  then have "length s = length lit + length g + length (drop (length lit + length g) s)"
    by (metis length_append add.assoc)
  with \<open>g \<noteq> []\<close> show "((lit, cls, drop (length lit + length g) s), (lit, cls, s))
      \<in> measure (\<lambda>(lit, cls, s). length s)"
    by (cases g) auto
next
  fix lit :: string and cls :: "char \<Rightarrow> bool" and s c cs
  assume "s = c # cs"
  then show "((lit, cls, cs), (lit, cls, s)) \<in> measure (\<lambda>(lit, cls, s). length s)"
    by simp
qed

declare re_findall.simps [simp del]

section \<open>LinkExtractor: \<open>GoogleDriveDownloader.extract_file_id\<close>\<close>

text \<open>
  The three patterns of \<open>extract_file_id\<close>, in the order of the source list; each is its
  literal followed by the group \<open>([a-zA-Z0-9_-]+)\<close>.
\<close>

definition patterns :: "string list" where
  "patterns = [''/file/d/'', ''id='', ''/open?id='']"

text \<open>The loop \<open>for pattern in patterns\<close>: the first pattern with a match returns.\<close>

fun first_match :: "string list \<Rightarrow> string \<Rightarrow> string option" where
  "first_match [] url = None"
| "first_match (p # ps) url =
     (case re_search p id_char url of
        Some g \<Rightarrow> Some g
      | None \<Rightarrow> first_match ps url)"

definition extract_file_id :: "string \<Rightarrow> string option" where
  "extract_file_id url = first_match patterns url"

definition get_direct_download_url :: "string \<Rightarrow> string" where
  "get_direct_download_url file_id = ''https://drive.google.com/uc?export=download&id='' @ file_id"




section \<open>RemoteFetcher: \<open>download_file\<close> and \<open>download_with_curl\<close>\<close>

text \<open>
  The download directory is a map from file names to contents. Every HTTP GET issued
  through \<open>urlopen\<close> is appended to \<open>requests\<close> (URL and User-Agent header), every
  command handed to \<open>subprocess.run\<close> to \<open>curl_runs\<close> (the URL it is given).
  \<open>session_files\<close> is the list of that name of the downloader object.
\<close>

record world =
  files :: "string \<rightharpoonup> string"
  requests :: "(string \<times> string) list"
  curl_runs :: "string list"
  session_files :: "string list"

text \<open>
  The remote host is an oracle: the answer to a request may depend on how many requests
  were issued before. \<open>HTTPError\<close> carries the status code; \<open>TransportError\<close> is any
  other exception of \<open>urlopen\<close> or \<open>read\<close>.
\<close>

datatype http_result = Body string | HTTPError nat | TransportError

type_synonym network = "nat \<Rightarrow> string \<times> string \<Rightarrow> http_result"

text \<open>
  The external tool is an oracle too. \<open>CurlNotFound\<close>: \<open>subprocess.run\<close> raises
  \<open>FileNotFoundError\<close>. \<open>CurlRaised\<close>: it raises another exception. \<open>CurlExit rc\<close>:
  the process ran and exited with \<open>rc\<close>. The \<open>string option\<close> is what the run left at
  the destination (\<open>None\<close>: no file), which did not exist before the run.
\<close>

datatype curl_outcome = CurlNotFound | CurlRaised "string option" | CurlExit int "string option"

type_synonym curl_tool = "nat \<Rightarrow> string \<Rightarrow> string \<Rightarrow> curl_outcome"

text \<open>\<open>bytes.lower()\<close>: the ASCII capitals are mapped to small letters.\<close>

definition lower_char :: "char \<Rightarrow> char" where
  "lower_char c = (let n = (of_char c :: nat) in if 65 \<le> n \<and> n \<le> 90 then char_of (n + 32) else c)"

text \<open>The test of line 86 for the large-file page.\<close>

definition interstitial :: "string \<Rightarrow> bool" where
  "interstitial content =
     (contains ''confirm='' content \<or> contains ''virus scan warning'' (map lower_char content))"

definition ua_first :: string where
  "ua_first = ''Mozilla/5.0 (Windows NT 10.0; Win64; x64) AppleWebKit/537.36''"

definition ua_confirm :: string where
  "ua_confirm = ''Mozilla/5.0''"

text \<open>
  Lines 78 to 97 of \<open>download_file\<close>: the first request, the test for the large-file
  page and the confirmed request. The result is the value of \<open>content\<close> when line 99 is
  reached, \<open>None\<close> when an exception left the \<open>try\<close> block before.
\<close>

definition fetch_payload :: "network \<Rightarrow> string \<Rightarrow> world \<Rightarrow> string option \<times> world" where
  "fetch_payload net direct_url w =
     (let request = (direct_url, ua_first);
          w1 = w\<lparr>requests := requests w @ [request]\<rparr>
      in case net (length (requests w)) request of
           Body content \<Rightarrow>
             if interstitial content then
               (case re_search ''confirm='' id_char content of
                  Some confirm_token \<Rightarrow>
                    (let confirmed = (direct_url @ ''&confirm='' @ confirm_token, ua_confirm);
                         w2 = w1\<lparr>requests := requests w1 @ [confirmed]\<rparr>
                     in case net (length (requests w1)) confirmed of
                          Body content2 \<Rightarrow> (Some content2, w2)
                        | HTTPError code \<Rightarrow> (None, w2)
                        | TransportError \<Rightarrow> (None, w2))
                | None \<Rightarrow> (Some content, w1))
             else (Some content, w1)
         | HTTPError code \<Rightarrow> (None, w1)
         | TransportError \<Rightarrow> (None, w1))"

text \<open>
  \<open>download_file\<close>. \<open>max_size_gb\<close> is the value of the float argument. Both float
  operations of lines 100 and 101 scale by a power of two, so they are exact for a payload
  below \<open>2^53\<close> bytes and the comparison of line 103 is the comparison of the rationals.
  The write of lines 108 and 109 is taken to succeed. The result is the name of the file
  under the download directory, or \<open>None\<close>.
\<close>

definition download_file ::
  "network \<Rightarrow> string \<Rightarrow> string \<Rightarrow> rat \<Rightarrow> world \<Rightarrow> string option \<times> world" where
  "download_file net url output_name max_size_gb w =
     (case extract_file_id url of
        None \<Rightarrow> (None, w)
      | Some file_id \<Rightarrow>
          if files w output_name \<noteq> None then (Some output_name, w)
          else
            (case fetch_payload net (get_direct_download_url file_id) w of
               (None, w') \<Rightarrow> (None, w')
             | (Some content, w') \<Rightarrow>
                 (let file_size_mb = (of_nat (length content) :: rat) / (1024 * 1024);
                      max_size_mb = max_size_gb * 1024
                  in if file_size_mb > max_size_mb then (None, w')
                     else (Some output_name,
                           w'\<lparr>files := (files w')(output_name \<mapsto> content),
                              session_files := session_files w' @ [output_name]\<rparr>))))"

text \<open>\<open>download_with_curl\<close>; the fallback call of line 165 takes the default limit 5.0.\<close>

definition download_with_curl ::
  "network \<Rightarrow> curl_tool \<Rightarrow> string \<Rightarrow> string \<Rightarrow> world \<Rightarrow> string option \<times> world" where
  "download_with_curl net curl url output_name w =
     (case extract_file_id url of
        None \<Rightarrow> (None, w)
      | Some file_id \<Rightarrow>
          if files w output_name \<noteq> None then (Some output_name, w)
          else
            (let target = ''https://drive.google.com/uc?export=download&id='' @ file_id;
                 w1 = w\<lparr>curl_runs := curl_runs w @ [target]\<rparr>
             in case curl (length (curl_runs w)) target output_name of
                  CurlNotFound \<Rightarrow> download_file net url output_name 5 w1
                | CurlRaised left \<Rightarrow> (None, w1\<lparr>files := (files w1)(output_name := left)\<rparr>)
                | CurlExit returncode left \<Rightarrow>
                    (let w2 = w1\<lparr>files := (files w1)(output_name := left)\<rparr>
                     in if returncode = 0 \<and> files w2 output_name \<noteq> None
                        then (Some output_name,
                              w2\<lparr>session_files := session_files w2 @ [output_name]\<rparr>)
                        else if files w2 output_name \<noteq> None
                        then (None, w2\<lparr>files := (files w2)(output_name := None)\<rparr>)
                        else (None, w2))))"

text \<open>\<open>str.replace\<close> of one character by another.\<close>

definition replace_char :: "char \<Rightarrow> char \<Rightarrow> string \<Rightarrow> string" where
  "replace_char a b s = map (\<lambda>c. if c = a then b else c) s"

text \<open>
  \<open>UnityPackageDownloader.download_package\<close>: the external tool first, the network
  path when it returned nothing.
\<close>

record instruction =
  i_name :: string
  i_path :: string
  i_url :: string
  i_relative_path :: string

definition download_package ::
  "network \<Rightarrow> curl_tool \<Rightarrow> instruction \<Rightarrow> world \<Rightarrow> string option \<times> world" where
  "download_package net curl ins w =
     (let pkg_name = replace_char (CHR '' '') (CHR ''_'') (replace_char (CHR ''/'') (CHR ''_'') (i_name ins));
          output_name = pkg_name @ ''.unitypackage''
      in case download_with_curl net curl (i_url ins) output_name w of
           (Some downloaded, w') \<Rightarrow> (Some downloaded, w')
         | (None, w') \<Rightarrow> download_file net (i_url ins) output_name 5 w')"

section \<open>Locator: the two discovery functions\<close>

text \<open>
  A path is the list of its \<open>parts\<close>, as \<open>pathlib\<close> gives them: for an absolute POSIX
  path the first part is \<open>/\<close> and the last is the file name. \<open>path_str\<close> is \<open>str(path)\<close>.
\<close>

fun join_parts :: "string list \<Rightarrow> string" where
  "join_parts [] = []"
| "join_parts [p] = p"
| "join_parts (p # q # ps) = p @ ''/'' @ join_parts (q # ps)"

definition path_str :: "string list \<Rightarrow> string" where
  "path_str parts =
     (case parts of
        [] \<Rightarrow> ''.''
      | p # ps \<Rightarrow> if p = ''/'' then ''/'' @ join_parts ps else join_parts (p # ps))"

text \<open>\<open>path.parent.name\<close>: the last part of the parent, empty when the parent is the root.\<close>

definition parent_name :: "string list \<Rightarrow> string" where
  "parent_name parts =
     (case butlast parts of
        [] \<Rightarrow> []
      | d # ds \<Rightarrow> if last (d # ds) = ''/'' then [] else last (d # ds))"

datatype py_error = ValueError | TypeError | IndexError | OSError | UnicodeDecodeError

text \<open>\<open>list.index\<close>: the first position of the value; \<open>None\<close> stands for its ValueError.\<close>

fun index_of :: "'a \<Rightarrow> 'a list \<Rightarrow> nat option" where
  "index_of x [] = None"
| "index_of x (y # ys) = (if x = y then Some 0 else map_option Suc (index_of x ys))"

text \<open>
  A pointer file found by \<open>rglob("DownloadInstructions.txt")\<close>: its parts, and what
  each of the two readers gets from it. \<open>pf_text\<close> is the text that
  \<open>open(txt_file, 'r', encoding='utf-8')\<close> and \<open>read\<close> return in the download
  script; \<open>pf_text_locale\<close> is the text \<open>txt_file.read_text()\<close> returns in the sync
  script, which decodes with the encoding of the locale. Each is \<open>None\<close> when that
  read raises. Nothing relates the two: one read can fail, or give another text, where
  the other succeeds. A search root: whether the directory exists, and the pointer files
  under it in the order \<open>rglob\<close> yields them.
\<close>

record pointer_file =
  pf_parts :: "string list"
  pf_text :: "string option"
  pf_text_locale :: "string option"

record search_root =
  root_exists :: bool
  root_files :: "pointer_file list"

text \<open>
  The name derivation of lines 205 to 214 of \<open>find_download_instructions\<close>. The test of
  line 205 is a substring test on the whole path string; line 208 looks for a part equal
  to the vendor name and raises ValueError when there is none.
\<close>

definition package_name :: "string list \<Rightarrow> py_error + string" where
  "package_name parts =
     (if contains ''LeartesStudios'' (path_str parts) then
        (case index_of ''LeartesStudios'' parts of
           None \<Rightarrow> Inl ValueError
         | Some leartes_idx \<Rightarrow>
             if leartes_idx + 1 < length parts - 1
             then Inr (''LeartesStudios/'' @ parts ! (leartes_idx + 1))
             else Inr ''LeartesStudios'')
      else Inr (parent_name parts))"

definition drive_matches :: "string \<Rightarrow> string list" where
  "drive_matches content = re_findall ''https://drive.google.com/'' non_space content"

text \<open>
  The body of the inner loop of \<open>find_download_instructions\<close> for one file: every
  exception (of the read, of \<open>parts.index\<close>, of \<open>relative_to\<close>) is caught at line 223
  and the file yields no record.
\<close>

definition instruction_of :: "string list \<Rightarrow> pointer_file \<Rightarrow> instruction option" where
  "instruction_of project txt_file =
     (case pf_text txt_file of
        None \<Rightarrow> None
      | Some content \<Rightarrow>
          (case drive_matches content of
             [] \<Rightarrow> None
           | m # ms \<Rightarrow>
               (case package_name (pf_parts txt_file) of
                  Inl e \<Rightarrow> None
                | Inr name \<Rightarrow>
                    if take (length project) (pf_parts txt_file) = project
                    then Some \<lparr>i_name = name, i_path = path_str (pf_parts txt_file), i_url = m,
                               i_relative_path = path_str (drop (length project) (pf_parts txt_file))\<rparr>
                    else None)))"

fun scan_download :: "string list \<Rightarrow> pointer_file list \<Rightarrow> instruction list" where
  "scan_download project [] = []"
| "scan_download project (f # fs) =
     (case instruction_of project f of
        None \<Rightarrow> scan_download project fs
      | Some ins \<Rightarrow> ins # scan_download project fs)"

fun find_download_instructions :: "string list \<Rightarrow> search_root list \<Rightarrow> instruction list" where
  "find_download_instructions project [] = []"
| "find_download_instructions project (r # rs) =
     (if \<not> root_exists r then find_download_instructions project rs
      else scan_download project (root_files r) @ find_download_instructions project rs)"

text \<open>\<open>UnityPackageSync._has_drive_link\<close> and \<open>find_packages_to_sync\<close>.\<close>

record package =
  p_name :: string
  p_path :: "string list"
  p_instructions_file :: "string list"
  p_has_link :: bool

definition has_drive_link :: "pointer_file \<Rightarrow> bool" where
  "has_drive_link txt_file =
     (case pf_text_locale txt_file of
        None \<Rightarrow> False
      | Some content \<Rightarrow> contains ''drive.google.com'' content)"

text \<open>Lines 86 to 97: the name and the package directory. Nothing catches the ValueError.\<close>

definition package_info :: "string list \<Rightarrow> py_error + string \<times> string list" where
  "package_info parts =
     (if contains ''LeartesStudios'' (path_str parts) then
        (case index_of ''LeartesStudios'' parts of
           None \<Rightarrow> Inl ValueError
         | Some leartes_idx \<Rightarrow>
             if leartes_idx + 1 < length parts - 1
             then Inr (''LeartesStudios/'' @ parts ! (leartes_idx + 1), take (leartes_idx + 2) parts)
             else Inr (''LeartesStudios'', take (leartes_idx + 1) parts))
      else Inr (parent_name parts, butlast parts))"

fun scan_sync :: "pointer_file list \<Rightarrow> package list \<Rightarrow> py_error + package list" where
  "scan_sync [] packages = Inr packages"
| "scan_sync (f # fs) packages =
     (case package_info (pf_parts f) of
        Inl e \<Rightarrow> Inl e
      | Inr (name, path) \<Rightarrow>
          scan_sync fs
            (packages @ [\<lparr>p_name = name, p_path = path, p_instructions_file = pf_parts f,
                          p_has_link = has_drive_link f\<rparr>]))"

fun sync_roots :: "search_root list \<Rightarrow> package list \<Rightarrow> py_error + package list" where
  "sync_roots [] packages = Inr packages"
| "sync_roots (r # rs) packages =
     (if \<not> root_exists r then sync_roots rs packages
      else (case scan_sync (root_files r) packages of
              Inl e \<Rightarrow> Inl e
            | Inr packages' \<Rightarrow> sync_roots rs packages'))"

definition find_packages_to_sync :: "search_root list \<Rightarrow> py_error + package list" where
  "find_packages_to_sync roots = sync_roots roots []"

text \<open>The pointer files a discovery visits: those of the roots that exist, in order.\<close>

definition pointer_files :: "search_root list \<Rightarrow> pointer_file list" where
  "pointer_files roots = concat (map root_files (filter root_exists roots))"

section \<open>SyncLedger: \<open>_load_config\<close>\<close>

text \<open>
  The value \<open>json.load\<close> returns. A number is its value; an object is the list of the
  items of the JSON text in order. The dictionary \<open>json.load\<close> builds from them has each
  key once, at the place of its first occurrence, with the value of its last occurrence:
  \<open>dict_keys\<close> are its keys in the order of iteration. The keys of a Python dictionary
  built from JSON values are \<open>None\<close>, numbers (with \<open>True\<close> and \<open>False\<close> equal to
  1 and 0) and strings; lists and dictionaries are not hashable.
\<close>

datatype json =
  JNull | JBool bool | JNum rat | JStr string | JArr "json list" | JObj "(string \<times> json) list"

datatype pykey = KNone | KNum rat | KStr string

type_synonym pydict = "pykey \<rightharpoonup> json"

fun first_occurrences :: "string list \<Rightarrow> string list \<Rightarrow> string list" where
  "first_occurrences seen [] = []"
| "first_occurrences seen (k # ks) =
     (if k \<in> set seen then first_occurrences seen ks
      else k # first_occurrences (k # seen) ks)"

definition dict_keys :: "(string \<times> json) list \<Rightarrow> string list" where
  "dict_keys kvs = first_occurrences [] (map fst kvs)"

fun key_of :: "json \<Rightarrow> pykey option" where
  "key_of JNull = Some KNone"
| "key_of (JBool b) = Some (KNum (if b then 1 else 0))"
| "key_of (JNum r) = Some (KNum r)"
| "key_of (JStr s) = Some (KStr s)"
| "key_of (JArr xs) = None"
| "key_of (JObj kvs) = None"

text \<open>
  \<open>dict.update(other)\<close>. A dictionary argument is merged key by key. Any other argument
  is iterated, and each element must itself be a sequence of exactly two elements, the
  key and the value: a list of two values, a string of two characters, or a dictionary
  of two keys (iterating a dictionary yields its keys). An element that is not iterable,
  or a key that is not hashable, is a TypeError; a sequence of another length is a
  ValueError; an argument that is not iterable is a TypeError.
\<close>

fun merge_items :: "pydict \<Rightarrow> (string \<times> json) list \<Rightarrow> pydict" where
  "merge_items d [] = d"
| "merge_items d ((k, v) # kvs) = merge_items (d(KStr k \<mapsto> v)) kvs"

fun seq2_item :: "json \<Rightarrow> py_error + pykey \<times> json" where
  "seq2_item (JArr [k, v]) = (case key_of k of None \<Rightarrow> Inl TypeError | Some k' \<Rightarrow> Inr (k', v))"
| "seq2_item (JArr xs) = Inl ValueError"
| "seq2_item (JStr [a, b]) = Inr (KStr [a], JStr [b])"
| "seq2_item (JStr s) = Inl ValueError"
| "seq2_item (JObj kvs) =
     (case dict_keys kvs of
        [k1, k2] \<Rightarrow> Inr (KStr k1, JStr k2)
      | _ \<Rightarrow> Inl ValueError)"
| "seq2_item JNull = Inl TypeError"
| "seq2_item (JBool b) = Inl TypeError"
| "seq2_item (JNum r) = Inl TypeError"

fun merge_seq2 :: "pydict \<Rightarrow> json list \<Rightarrow> py_error + pydict" where
  "merge_seq2 d [] = Inr d"
| "merge_seq2 d (x # xs) =
     (case seq2_item x of
        Inl e \<Rightarrow> Inl e
      | Inr (k, v) \<Rightarrow> merge_seq2 (d(k \<mapsto> v)) xs)"

definition dict_update :: "pydict \<Rightarrow> json \<Rightarrow> py_error + pydict" where
  "dict_update d other =
     (case other of
        JObj kvs \<Rightarrow> Inr (merge_items d kvs)
      | JArr xs \<Rightarrow> merge_seq2 d xs
      | JStr s \<Rightarrow> merge_seq2 d (map (\<lambda>c. JStr [c]) s)
      | JNull \<Rightarrow> Inl TypeError
      | JBool b \<Rightarrow> Inl TypeError
      | JNum r \<Rightarrow> Inl TypeError)"

text \<open>
  What \<open>_load_config\<close> meets at the path of the configuration file: nothing; a file that
  \<open>open\<close> cannot open (OSError); a file whose bytes do not decode (UnicodeDecodeError,
  raised inside \<open>json.load\<close>); text that is not JSON (JSONDecodeError); or JSON text,
  with the value \<open>json.load\<close> returns.
\<close>

datatype config_file = Missing | OpenFails | DecodeFails | InvalidJSON | Parsed json

text \<open>
  \<open>_load_config\<close> of both classes; they differ in the default document only. Only
  JSONDecodeError is caught.
\<close>

definition load_config :: "(pykey \<times> json) list \<Rightarrow> config_file \<Rightarrow> py_error + pydict" where
  "load_config default_config file =
     (case file of
        Missing \<Rightarrow> Inr (map_of default_config)
      | OpenFails \<Rightarrow> Inl OSError
      | DecodeFails \<Rightarrow> Inl UnicodeDecodeError
      | InvalidJSON \<Rightarrow> Inr (map_of default_config)
      | Parsed loaded_config \<Rightarrow> dict_update (map_of default_config) loaded_config)"

definition sync_default_config :: "(pykey \<times> json) list" where
  "sync_default_config =
     [(KStr ''google_drive_folder'', JStr ''NeonLadder_Packages''),
      (KStr ''last_sync'', JNull),
      (KStr ''package_mappings'', JObj []),
      (KStr ''auto_update_instructions'', JBool True)]"

definition export_default_config :: "(pykey \<times> json) list" where
  "export_default_config =
     [(KStr ''packages_to_export'', JArr []),
      (KStr ''exclude_patterns'',
         JArr [JStr ''*.meta'', JStr ''.git'', JStr ''__pycache__'', JStr ''*.pyc'',
               JStr ''.DS_Store'', JStr ''Thumbs.db'']),
      (KStr ''google_drive_folder_id'', JNull),
      (KStr ''last_export'', JNull)]"

definition sync_load_config :: "config_file \<Rightarrow> py_error + pydict" where
  "sync_load_config file = load_config sync_default_config file"

definition export_load_config :: "config_file \<Rightarrow> py_error + pydict" where
  "export_load_config file = load_config export_default_config file"

section \<open>The sync workflow: \<open>sync_package\<close>\<close>

text \<open>
  The state \<open>sync_package\<close> works on: the files of the export directory, the texts of
  the pointer files, \<open>config["package_mappings"]\<close>, and the files handed to
  \<open>upload_to_gdrive\<close>. The upload tool is an oracle: it answers with the file id read
  from the tool's output, or \<open>None\<close> on each failure path of \<open>upload_to_gdrive\<close>. The
  two readings of the clock are parameters.
\<close>

record mapping_entry =
  m_file_id :: string
  m_link :: string
  m_updated :: string

record sync_world =
  export_dir :: "string set"
  pointer_texts :: "string list \<rightharpoonup> string"
  package_mappings :: "string \<rightharpoonup> mapping_entry"
  uploads :: "string list"

type_synonym gdrive = "nat \<Rightarrow> string \<Rightarrow> string option"

definition upload_to_gdrive :: "gdrive \<Rightarrow> string \<Rightarrow> sync_world \<Rightarrow> string option \<times> sync_world" where
  "upload_to_gdrive gd file_path w =
     (let w1 = w\<lparr>uploads := uploads w @ [file_path]\<rparr>
      in case gd (length (uploads w)) file_path of
           None \<Rightarrow> (None, w1)
         | Some file_id \<Rightarrow>
             (Some (''https://drive.google.com/file/d/'' @ file_id @ ''/view?usp=sharing''), w1))"

definition instructions_text :: "string \<Rightarrow> string \<Rightarrow> string \<Rightarrow> string" where
  "instructions_text drive_link pkg_name now =
     ''Download the necessary file(s) from the following link:\<newline>\<newline>'' @ drive_link @
     ''\<newline>\<newline>Instructions:\<newline>'' @
     ''1. Download the .unitypackage file from the above link.\<newline>'' @
     ''2. Open Unity and go to Assets > Import Package > Custom Package.\<newline>'' @
     ''3. Select the downloaded .unitypackage file and import it into your project.\<newline>\<newline>'' @
     ''Package: '' @ pkg_name @ ''\<newline>Last Updated: '' @ now @
     ''\<newline>Synced with UnityPackageSync\<newline>''"

definition update_download_instructions ::
  "string \<Rightarrow> string list \<Rightarrow> string \<Rightarrow> string \<Rightarrow> sync_world \<Rightarrow> sync_world" where
  "update_download_instructions now txt_file drive_link pkg_name w =
     w\<lparr>pointer_texts := (pointer_texts w)(txt_file \<mapsto> instructions_text drive_link pkg_name now)\<rparr>"

text \<open>
  \<open>create_placeholder_package\<close>: the archive is written under the export directory; the
  temporary \<open>README.txt\<close> there is written and removed again.
\<close>

definition create_placeholder_package :: "string \<Rightarrow> sync_world \<Rightarrow> string \<times> sync_world" where
  "create_placeholder_package pkg_name w =
     (let output_file = replace_char (CHR ''/'') (CHR ''_'') pkg_name @ ''.unitypackage''
      in (output_file, w\<lparr>export_dir := insert output_file (export_dir w - {''README.txt''})\<rparr>))"

text \<open>
  \<open>drive_link.split("/d/")[1].split("/")[0]\<close>: the text after the first \<open>/d/\<close>, up to
  the next slash (the second piece of the first split ends where the next \<open>/d/\<close> starts,
  which is at a slash, so cutting at the first slash gives the same text). IndexError when
  the link has no \<open>/d/\<close>.
\<close>

fun after_first :: "string \<Rightarrow> string \<Rightarrow> string option" where
  "after_first sep [] = (if sep = [] then Some [] else None)"
| "after_first sep (c # cs) =
     (if starts_with sep (c # cs) then Some (drop (length sep) (c # cs)) else after_first sep cs)"

definition link_file_id :: "string \<Rightarrow> py_error + string" where
  "link_file_id drive_link =
     (case after_first ''/d/'' drive_link of
        None \<Rightarrow> Inl IndexError
      | Some rest \<Rightarrow> Inr (takeWhile (\<lambda>c. c \<noteq> CHR ''/'') rest))"

definition sync_package ::
  "gdrive \<Rightarrow> string \<Rightarrow> string \<Rightarrow> package \<Rightarrow> bool \<Rightarrow> sync_world \<Rightarrow> py_error + bool \<times> sync_world" where
  "sync_package gd now_text now_iso pkg use_placeholder w =
     (let pkg_name = p_name pkg
      in if p_has_link pkg then Inr (True, w)
         else
           (let export_file = replace_char (CHR ''/'') (CHR ''_'') pkg_name @ ''.unitypackage''
            in if export_file \<notin> export_dir w \<and> \<not> use_placeholder then Inr (False, w)
               else
                 (let (export_file', w1) =
                        (if export_file \<notin> export_dir w
                         then create_placeholder_package pkg_name w
                         else (export_file, w))
                  in case upload_to_gdrive gd export_file' w1 of
                       (None, w2) \<Rightarrow> Inr (False, w2)
                     | (Some drive_link, w2) \<Rightarrow>
                         (let w3 = update_download_instructions now_text (p_instructions_file pkg)
                                     drive_link pkg_name w2
                          in case link_file_id drive_link of
                               Inl e \<Rightarrow> Inl e
                             | Inr file_id \<Rightarrow>
                                 Inr (True,
                                      w3\<lparr>package_mappings := (package_mappings w3)
                                            (pkg_name \<mapsto>
                                               \<lparr>m_file_id = file_id, m_link = drive_link,
                                                m_updated = now_iso\<rparr>)\<rparr>)))))"

section \<open>Concrete worlds, hosts and tools for the examples\<close>

text \<open>
  An empty download directory and one that holds a file; a host that is unreachable, one
  that answers every request with the same body, and one that answers the first request
  with the large-file page and the next with the payload; an external tool that exits
  with status 1 and leaves a partial file.
\<close>

definition empty_world :: world where
  "empty_world = \<lparr>files = Map.empty, requests = [], curl_runs = [], session_files = []\<rparr>"

definition cached_world :: "string \<Rightarrow> string \<Rightarrow> world" where
  "cached_world name content = empty_world\<lparr>files := [name \<mapsto> content]\<rparr>"

definition offline :: network where
  "offline n request = TransportError"

definition serves :: "string \<Rightarrow> network" where
  "serves body n request = Body body"

definition handshake_host :: network where
  "handshake_host n request =
     (if n = 0 then Body ''Virus scan warning: /uc?export=download&confirm=Ab1_&id=abc''
      else Body ''PAYLOAD'')"

definition curl_partial :: curl_tool where
  "curl_partial n target output_name = CurlExit 1 (Some ''partial'')"

text \<open>
  A project at \<open>/proj\<close>. The layout of the repository's own discovery test: a package
  with a link under \<open>Assets/Packages\<close> and one without under \<open>Assets/Audio\<close>. Two
  pointer files whose parent directories have the same name, one under each root. A
  pointer file that mentions the host without a link, and one in a directory whose name
  only starts with the vendor name; both readers get the same text from each of these.
  A pointer file that mentions the host and that only the sync script can read (its bytes
  decode in the locale's encoding and not as UTF-8). The state of a sync run before anything was exported,
  and an upload tool that fails.
\<close>

definition project_dir :: "string list" where
  "project_dir = [''/'', ''proj'']"

definition pointer_at :: "string list \<Rightarrow> string \<Rightarrow> pointer_file" where
  "pointer_at dirs content =
     \<lparr>pf_parts = project_dir @ dirs @ [''DownloadInstructions.txt''],
      pf_text = Some content, pf_text_locale = Some content\<rparr>"

definition scenario_roots :: "search_root list" where
  "scenario_roots =
     [\<lparr>root_exists = True,
       root_files = [pointer_at [''Assets'', ''Packages'', ''TestPkg'']
                       ''Download from:\<newline>https://drive.google.com/file/d/test123/view?usp=sharing\<newline>'']\<rparr>,
      \<lparr>root_exists = True,
       root_files = [pointer_at [''Assets'', ''Audio'', ''Background''] ''No link here'']\<rparr>]"

definition duplicate_roots :: "search_root list" where
  "duplicate_roots =
     [\<lparr>root_exists = True,
       root_files = [pointer_at [''Assets'', ''Packages'', ''Common'']
                       ''https://drive.google.com/file/d/pkg1/view'']\<rparr>,
      \<lparr>root_exists = True,
       root_files = [pointer_at [''Assets'', ''Audio'', ''Common'']
                       ''https://drive.google.com/file/d/snd2/view'']\<rparr>]"

definition bare_mention :: pointer_file where
  "bare_mention = pointer_at [''Assets'', ''Packages'', ''Notes''] ''see drive.google.com for the package''"

definition undecodable_mention :: pointer_file where
  "undecodable_mention =
     \<lparr>pf_parts = project_dir @ [''Assets'', ''Packages'', ''Legacy'', ''DownloadInstructions.txt''],
      pf_text = None, pf_text_locale = Some ''see drive.google.com for the package''\<rparr>"

definition vendor_lookalike :: pointer_file where
  "vendor_lookalike =
     pointer_at [''Assets'', ''Packages'', ''LeartesStudiosExtra'']
       ''https://drive.google.com/file/d/extra1/view''"

definition sync_start :: sync_world where
  "sync_start = \<lparr>export_dir = {}, pointer_texts = Map.empty, package_mappings = Map.empty, uploads = []\<rparr>"

definition gdrive_down :: gdrive where
  "gdrive_down n file_path = None"

section \<open>Properties of the link extractor\<close>

lemma match_here_iff:
  "match_here lit cls s \<noteq> None \<longleftrightarrow> (\<exists>c rest. s = lit @ c # rest \<and> cls c)"
proof
  assume "match_here lit cls s \<noteq> None"
  then obtain g where g: "match_here lit cls s = Some g" by blast
  then have st: "take (length lit) s = lit" and tw: "takeWhile cls (drop (length lit) s) \<noteq> []"
    by (auto simp: match_here_def starts_with_def Let_def split: if_splits)
  from tw obtain c rest where d: "drop (length lit) s = c # rest" and "cls c"
    by (cases "drop (length lit) s") (auto split: if_splits)
  from st d have "s = lit @ c # rest" by (metis append_take_drop_id)
  with \<open>cls c\<close> show "\<exists>c rest. s = lit @ c # rest \<and> cls c" by blast
next
  assume "\<exists>c rest. s = lit @ c # rest \<and> cls c"
  then show "match_here lit cls s \<noteq> None"
    by (auto simp: match_here_def starts_with_def Let_def)
qed


lemma re_search_here: "match_here lit cls s = Some g \<Longrightarrow> re_search lit cls s = Some g"
  by (cases s) auto


lemma re_search_None_iff:
  "re_search lit cls s = None \<longleftrightarrow> (\<forall>i\<le>length s. match_here lit cls (drop i s) = None)"
proof (induction s)
  case Nil
  then show ?case by simp
next
  case (Cons a s)
  show ?case
  proof
    assume n: "re_search lit cls (a # s) = None"
    then have h0: "match_here lit cls (a # s) = None" and r: "re_search lit cls s = None"
      by (auto split: option.splits)
    show "\<forall>i\<le>length (a # s). match_here lit cls (drop i (a # s)) = None"
    proof (intro allI impI)
      fix i assume "i \<le> length (a # s)"
      then show "match_here lit cls (drop i (a # s)) = None"
        using h0 r Cons.IH by (cases i) auto
    qed
  next
    assume a: "\<forall>i\<le>length (a # s). match_here lit cls (drop i (a # s)) = None"
    then have h0: "match_here lit cls (a # s) = None" by force
    have "\<forall>i\<le>length s. match_here lit cls (drop i s) = None"
    proof (intro allI impI)
      fix i assume "i \<le> length s"
      then have "Suc i \<le> length (a # s)" by simp
      with a have "match_here lit cls (drop (Suc i) (a # s)) = None" by blast
      then show "match_here lit cls (drop i s) = None" by simp
    qed
    with Cons.IH have "re_search lit cls s = None" by blast
    with h0 show "re_search lit cls (a # s) = None" by simp
  qed
qed





text \<open>
  The third pattern never decides: a URL it matches is matched by the second pattern
  first.
\<close>

lemma open_pattern_subsumed:
  assumes n: "re_search ''id='' id_char url = None"
  shows "re_search ''/open?id='' id_char url = None"
proof (rule ccontr)
  assume "re_search ''/open?id='' id_char url \<noteq> None"
  then obtain i where i: "match_here ''/open?id='' id_char (drop i url) \<noteq> None"
    by (auto simp: re_search_None_iff)
  then obtain c rest where d: "drop i url = ''/open?id='' @ c # rest" and c: "id_char c"
    using match_here_iff by blast
  have "drop (i + 6) url = drop 6 (drop i url)" by (simp add: add.commute)
  also have "\<dots> = ''id='' @ c # rest" by (simp add: d)
  finally have e: "drop (i + 6) url = ''id='' @ c # rest" .
  then have m: "match_here ''id='' id_char (drop (i + 6) url) \<noteq> None"
    using c match_here_iff by blast
  have "i + 6 \<le> length url"
  proof (rule ccontr)
    assume "\<not> i + 6 \<le> length url"
    then have "drop (i + 6) url = []" by simp
    with e show False by simp
  qed
  with m n show False by (auto simp: re_search_None_iff)
qed



section \<open>Properties of the fetcher\<close>

text \<open>Inputs of the examples, evaluated once.\<close>

lemma url_abc: "extract_file_id ''https://drive.google.com/file/d/abc/view'' = Some ''abc''"
  by code_simp

lemma url_none: "extract_file_id ''https://example.com/x'' = None"
  by code_simp

lemma plain_abcd: "\<not> interstitial ''abcd''" "\<not> interstitial ''abc''"
  by code_simp+

lemma page_token:
  "interstitial ''Virus scan warning: /uc?export=download&confirm=Ab1_&id=abc''"
  "re_search ''confirm='' id_char ''Virus scan warning: /uc?export=download&confirm=Ab1_&id=abc'' = Some ''Ab1_''"
  by code_simp+

lemma page_plain:
  "interstitial ''<title>Google Drive - Virus scan warning</title>''"
  "re_search ''confirm='' id_char ''<title>Google Drive - Virus scan warning</title>'' = None"
  by code_simp+

text \<open>The requests of lines 78 to 97 touch no file; they issue at least one request.\<close>

lemma fetch_payload_frame:
  "fetch_payload net d w = (r, w') \<Longrightarrow>
     files w' = files w \<and> session_files w' = session_files w \<and> curl_runs w' = curl_runs w
     \<and> (\<exists>rs. rs \<noteq> [] \<and> requests w' = requests w @ rs)"
  unfolding fetch_payload_def Let_def
  by (auto split: http_result.splits if_splits option.splits)

text \<open>
  The test of line 103 in bytes: the payload is over the limit exactly when its length
  exceeds the limit in bytes, rounded down.
\<close>

lemma floor_cmp:
  fixes x :: rat
  assumes "0 \<le> x"
  shows "((of_nat n :: rat) > x) = (n > nat \<lfloor>x\<rfloor>)"
proof -
  have "((of_nat n :: rat) > x) = (x < of_int (int n))" by simp
  also have "\<dots> = (\<lfloor>x\<rfloor> < int n)" by (simp only: floor_less_iff)
  also have "\<dots> = (nat \<lfloor>x\<rfloor> < n)" using assms by (simp add: nat_less_iff)
  finally show ?thesis .
qed

lemma size_check:
  fixes max_size_gb :: rat
  assumes "0 \<le> max_size_gb"
  shows "((of_nat n :: rat) / (1024 * 1024) > max_size_gb * 1024)
         = (n > nat \<lfloor>max_size_gb * 1024 * 1024 * 1024\<rfloor>)"
proof -
  have "((of_nat n :: rat) / (1024 * 1024) > max_size_gb * 1024)
        = ((of_nat n :: rat) > max_size_gb * 1024 * 1024 * 1024)"
    by (simp add: field_simps)
  also have "\<dots> = (n > nat \<lfloor>max_size_gb * 1024 * 1024 * 1024\<rfloor>)"
    using assms by (intro floor_cmp) simp
  finally show ?thesis .
qed

lemma download_file_written:
  assumes "download_file net url output_name max_size_gb w = (r, w')"
    and "files w' name = Some c" and "files w name \<noteq> Some c"
  shows "name = output_name \<and> \<not> (of_nat (length c) :: rat) / (1024 * 1024) > max_size_gb * 1024"
proof -
  from assms obtain fid where fid: "extract_file_id url = Some fid"
    by (auto simp: download_file_def split: option.splits)
  from assms fid have nf: "files w output_name = None"
    by (auto simp: download_file_def split: if_splits)
  obtain pr w1 where fp: "fetch_payload net (get_direct_download_url fid) w = (pr, w1)"
    by (cases "fetch_payload net (get_direct_download_url fid) w") auto
  have fr: "files w1 = files w" using fetch_payload_frame [OF fp] by simp
  from assms fid nf fp fr obtain content where c: "pr = Some content"
    by (cases pr) (auto simp: download_file_def)
  from assms fid nf fp fr c have le: "\<not> (of_nat (length content) :: rat) / (1024 * 1024) > max_size_gb * 1024"
    by (auto simp: download_file_def Let_def split: if_splits)
  from assms(1) fid nf fp fr c le have "w' = w1\<lparr>files := (files w1)(output_name \<mapsto> content),
        session_files := session_files w1 @ [output_name]\<rparr>"
    by (auto simp: download_file_def Let_def split: if_splits)
  with assms(2,3) fr le show ?thesis by (auto split: if_splits)
qed

lemma download_file_Some:
  assumes "download_file net url output_name max_size_gb w = (Some p, w')"
  shows "p = output_name \<and> extract_file_id url \<noteq> None \<and> files w' output_name \<noteq> None"
proof -
  from assms obtain fid where fid: "extract_file_id url = Some fid"
    by (auto simp: download_file_def split: option.splits)
  from assms fid show ?thesis
    by (auto simp: download_file_def Let_def split: if_splits option.splits prod.splits)
qed

lemma download_with_curl_Some:
  assumes "download_with_curl net curl url output_name w = (Some p, w')"
  shows "p = output_name \<and> extract_file_id url \<noteq> None \<and> files w' output_name \<noteq> None"
proof -
  from assms obtain fid where fid: "extract_file_id url = Some fid"
    by (auto simp: download_with_curl_def split: option.splits)
  show ?thesis
  proof (cases "files w output_name \<noteq> None")
    case True
    with assms fid show ?thesis by (auto simp: download_with_curl_def)
  next
    case False
    let ?t = "''https://drive.google.com/uc?export=download&id='' @ fid"
    let ?w1 = "w\<lparr>curl_runs := curl_runs w @ [?t]\<rparr>"
    show ?thesis
    proof (cases "curl (length (curl_runs w)) ?t output_name")
      case CurlNotFound
      with assms fid False have "download_file net url output_name 5 ?w1 = (Some p, w')"
        by (simp add: download_with_curl_def Let_def)
      then show ?thesis by (rule download_file_Some)
    next
      case (CurlRaised left)
      with assms fid False show ?thesis by (simp add: download_with_curl_def Let_def)
    next
      case (CurlExit rc left)
      with assms fid False show ?thesis
        by (auto simp: download_with_curl_def Let_def split: if_splits)
    qed
  qed
qed

lemma fetch_abc:
  "download_file (serves ''abc'') ''https://drive.google.com/file/d/abc/view'' ''p.unitypackage'' 5 empty_world
   = (Some ''p.unitypackage'',
      empty_world\<lparr>requests := [(get_direct_download_url ''abc'', ua_first)],
                   files := [''p.unitypackage'' \<mapsto> ''abc''],
                   session_files := [''p.unitypackage'']\<rparr>)"
proof -
  have p3: "fetch_payload (serves ''abc'') (get_direct_download_url ''abc'') empty_world =
            (Some ''abc'', empty_world\<lparr>requests := [(get_direct_download_url ''abc'', ua_first)]\<rparr>)"
    using plain_abcd by (simp add: fetch_payload_def serves_def Let_def empty_world_def)
  show ?thesis
    using url_abc p3 by (simp add: download_file_def Let_def empty_world_def)
qed

text \<open>
  Claim C1, as amended. For a link from which an identifier can be extracted: when a file
  exists at the destination, \<open>download_file\<close> and \<open>download_with_curl\<close> return it
  and change nothing (no request, no process, no write); and after a call of either
  function that returned a file, a second call of either for the same destination
  returns the same file and changes nothing, whatever the host or the tool would answer.
  For a link with no identifier both functions return nothing and change nothing, whether
  or not the destination exists: the identifier is extracted before the destination is
  looked at.
\<close>

theorem fetch_cache_hit:
  "(extract_file_id url \<noteq> None \<and> files w output_name \<noteq> None \<longrightarrow>
      download_file net url output_name max_size_gb w = (Some output_name, w) \<and>
      download_with_curl net curl url output_name w = (Some output_name, w))
   \<and> (download_file net url output_name max_size_gb w = (Some p, w') \<or>
      download_with_curl net curl url output_name w = (Some p, w') \<longrightarrow>
      p = output_name \<and>
      download_file net2 url output_name max2 w' = (Some output_name, w') \<and>
      download_with_curl net2 curl2 url output_name w' = (Some output_name, w'))
   \<and> (extract_file_id url = None \<longrightarrow>
      download_file net url output_name max_size_gb w = (None, w) \<and>
      download_with_curl net curl url output_name w = (None, w))"
proof -
  have hit: "download_file n u output_name m v = (Some output_name, v) \<and>
             download_with_curl n c u output_name v = (Some output_name, v)"
    if "extract_file_id u \<noteq> None" "files v output_name \<noteq> None" for n c u m v
    using that by (auto simp: download_file_def download_with_curl_def)
  have 1: "extract_file_id url \<noteq> None \<and> files w output_name \<noteq> None \<longrightarrow>
      download_file net url output_name max_size_gb w = (Some output_name, w) \<and>
      download_with_curl net curl url output_name w = (Some output_name, w)"
    using hit by blast
  have 2: "download_file net url output_name max_size_gb w = (Some p, w') \<or>
      download_with_curl net curl url output_name w = (Some p, w') \<longrightarrow>
      p = output_name \<and>
      download_file net2 url output_name max2 w' = (Some output_name, w') \<and>
      download_with_curl net2 curl2 url output_name w' = (Some output_name, w')"
  proof
    assume "download_file net url output_name max_size_gb w = (Some p, w') \<or>
      download_with_curl net curl url output_name w = (Some p, w')"
    then have s: "p = output_name \<and> extract_file_id url \<noteq> None \<and> files w' output_name \<noteq> None"
      using download_file_Some download_with_curl_Some by blast
    with hit [of url w' net2 max2 curl2]
    show "p = output_name \<and>
      download_file net2 url output_name max2 w' = (Some output_name, w') \<and>
      download_with_curl net2 curl2 url output_name w' = (Some output_name, w')"
      by blast
  qed
  have 3: "extract_file_id url = None \<longrightarrow>
      download_file net url output_name max_size_gb w = (None, w) \<and>
      download_with_curl net curl url output_name w = (None, w)"
    by (simp add: download_file_def download_with_curl_def)
  from 1 2 3 show ?thesis by (intro conjI)
qed

theorem fetch_cache_hit_witness:
  "download_file offline ''https://drive.google.com/file/d/abc/view'' ''p.unitypackage'' 5
     (cached_world ''p.unitypackage'' ''data'')
   = (Some ''p.unitypackage'', cached_world ''p.unitypackage'' ''data'')
   \<and> download_with_curl offline curl_partial ''https://drive.google.com/file/d/abc/view''
       ''p.unitypackage'' (cached_world ''p.unitypackage'' ''data'')
   = (Some ''p.unitypackage'', cached_world ''p.unitypackage'' ''data'')
   \<and> download_file offline ''https://drive.google.com/file/d/abc/view'' ''p.unitypackage'' 5
       (snd (download_file (serves ''abc'') ''https://drive.google.com/file/d/abc/view''
               ''p.unitypackage'' 5 empty_world))
     = (Some ''p.unitypackage'',
        snd (download_file (serves ''abc'') ''https://drive.google.com/file/d/abc/view''
               ''p.unitypackage'' 5 empty_world))
   \<and> download_file offline ''https://example.com/x'' ''q.unitypackage'' 5 empty_world
     = (None, empty_world)"
proof -
  have i: "extract_file_id ''https://drive.google.com/file/d/abc/view'' \<noteq> None"
    using url_abc by simp
  have f: "files (cached_world ''p.unitypackage'' ''data'') ''p.unitypackage'' \<noteq> None"
    by (simp add: cached_world_def empty_world_def)
  note hit = fetch_cache_hit [THEN conjunct1, THEN mp, OF conjI [OF i f]]
  note again = fetch_cache_hit [THEN conjunct2, THEN conjunct1, THEN mp, OF disjI1 [OF fetch_abc]]
  note none = fetch_cache_hit [THEN conjunct2, THEN conjunct2, THEN mp, OF url_none]
  show ?thesis
    unfolding fetch_abc snd_conv using hit again none by blast
qed

text \<open>
  Claim C1 as stated fails for a link with no identifier: the destination exists and
  both functions return nothing.
\<close>

theorem fetch_without_identifier_counterexample:
  "files (cached_world ''p.unitypackage'' ''data'') ''p.unitypackage'' = Some ''data''
   \<and> download_file offline ''https://example.com/x'' ''p.unitypackage'' 5
       (cached_world ''p.unitypackage'' ''data'')
     = (None, cached_world ''p.unitypackage'' ''data'')
   \<and> download_with_curl offline curl_partial ''https://example.com/x'' ''p.unitypackage''
       (cached_world ''p.unitypackage'' ''data'')
     = (None, cached_world ''p.unitypackage'' ''data'')"
  using url_none
  by (simp add: download_file_def download_with_curl_def cached_world_def empty_world_def)

text \<open>
  Claim C2. Let the limit in bytes be \<open>max_size_gb\<close> times \<open>2^30\<close>, rounded down.
  When the payload that reaches the size test is longer than the limit,
  \<open>download_file\<close> returns nothing and no file is written; a payload of at most the
  limit (so one of exactly the limit) is written to the destination. Whatever the host
  answers, a file content that \<open>download_file\<close> leaves and that was not there before
  is at the destination and is no longer than the limit.
\<close>

theorem download_file_size_limit:
  assumes "0 \<le> max_size_gb"
    and "max_size_bytes = nat \<lfloor>max_size_gb * 1024 * 1024 * 1024\<rfloor>"
  shows
    "(extract_file_id url = Some file_id \<and> files w output_name = None \<and>
      fetch_payload net (get_direct_download_url file_id) w = (Some content, w1) \<longrightarrow>
        (if length content > max_size_bytes
         then download_file net url output_name max_size_gb w = (None, w1) \<and> files w1 = files w
         else download_file net url output_name max_size_gb w =
                (Some output_name,
                 w1\<lparr>files := (files w)(output_name \<mapsto> content),
                     session_files := session_files w @ [output_name]\<rparr>)))
     \<and> (\<forall>name c. files (snd (download_file net url output_name max_size_gb w)) name = Some c \<and>
                  files w name \<noteq> Some c \<longrightarrow>
                  name = output_name \<and> length c \<le> max_size_bytes)"
proof (intro conjI impI allI)
  assume a: "extract_file_id url = Some file_id \<and> files w output_name = None \<and>
      fetch_payload net (get_direct_download_url file_id) w = (Some content, w1)"
  then have fp: "fetch_payload net (get_direct_download_url file_id) w = (Some content, w1)" by simp
  have fr: "files w1 = files w" "session_files w1 = session_files w"
    using fetch_payload_frame [OF fp] by auto
  show "if length content > max_size_bytes
         then download_file net url output_name max_size_gb w = (None, w1) \<and> files w1 = files w
         else download_file net url output_name max_size_gb w =
                (Some output_name,
                 w1\<lparr>files := (files w)(output_name \<mapsto> content),
                     session_files := session_files w @ [output_name]\<rparr>)"
    using a fr size_check [OF assms(1), of "length content"] assms(2)
    by (auto simp: download_file_def Let_def)
next
  fix name c
  assume a: "files (snd (download_file net url output_name max_size_gb w)) name = Some c \<and>
                  files w name \<noteq> Some c"
  obtain r w' where d: "download_file net url output_name max_size_gb w = (r, w')"
    by (cases "download_file net url output_name max_size_gb w") auto
  with a have "name = output_name \<and> \<not> (of_nat (length c) :: rat) / (1024 * 1024) > max_size_gb * 1024"
    by (intro download_file_written [OF d]) auto
  then show "name = output_name" and "length c \<le> max_size_bytes"
    using size_check [OF assms(1), of "length c"] assms(2) by auto
qed

theorem download_file_size_limit_witness:
  "fst (download_file (serves ''abcd'') ''https://drive.google.com/file/d/abc/view'' ''p.unitypackage''
         (3 / 2 ^ 30) empty_world) = None
   \<and> files (snd (download_file (serves ''abcd'') ''https://drive.google.com/file/d/abc/view''
         ''p.unitypackage'' (3 / 2 ^ 30) empty_world)) ''p.unitypackage'' = None
   \<and> fst (download_file (serves ''abc'') ''https://drive.google.com/file/d/abc/view'' ''p.unitypackage''
         (3 / 2 ^ 30) empty_world) = Some ''p.unitypackage''
   \<and> files (snd (download_file (serves ''abc'') ''https://drive.google.com/file/d/abc/view''
         ''p.unitypackage'' (3 / 2 ^ 30) empty_world)) ''p.unitypackage'' = Some ''abc''
   \<and> files empty_world ''p.unitypackage'' \<noteq> Some ''abc''
   \<and> length ''abc'' \<le> (3::nat)"
proof -
  have b: "(0::rat) \<le> 3 / 2 ^ 30" "(3::nat) = nat \<lfloor>(3 / 2 ^ 30 :: rat) * 1024 * 1024 * 1024\<rfloor>"
    by simp_all
  have nf: "files empty_world ''p.unitypackage'' = None" by (simp add: empty_world_def)
  have p4: "fetch_payload (serves ''abcd'') (get_direct_download_url ''abc'') empty_world =
            (Some ''abcd'', empty_world\<lparr>requests := requests empty_world @ [(get_direct_download_url ''abc'', ua_first)]\<rparr>)"
    using plain_abcd by (simp add: fetch_payload_def serves_def Let_def)
  have p3: "fetch_payload (serves ''abc'') (get_direct_download_url ''abc'') empty_world =
            (Some ''abc'', empty_world\<lparr>requests := requests empty_world @ [(get_direct_download_url ''abc'', ua_first)]\<rparr>)"
    using plain_abcd by (simp add: fetch_payload_def serves_def Let_def)
  have l4: "length ''abcd'' > (3::nat)" and l3: "\<not> length ''abc'' > (3::nat)" by simp_all
  have r4: "download_file (serves ''abcd'') ''https://drive.google.com/file/d/abc/view'' ''p.unitypackage''
         (3 / 2 ^ 30) empty_world
        = (None, empty_world\<lparr>requests := requests empty_world @ [(get_direct_download_url ''abc'', ua_first)]\<rparr>)"
    using download_file_size_limit [OF b, THEN conjunct1, rule_format,
            OF conjI [OF url_abc conjI [OF nf p4]]] l4
    by (simp only: if_True)
  have r3: "download_file (serves ''abc'') ''https://drive.google.com/file/d/abc/view'' ''p.unitypackage''
         (3 / 2 ^ 30) empty_world
        = (Some ''p.unitypackage'',
           empty_world\<lparr>requests := requests empty_world @ [(get_direct_download_url ''abc'', ua_first)],
             files := (files empty_world)(''p.unitypackage'' \<mapsto> ''abc''),
             session_files := session_files empty_world @ [''p.unitypackage'']\<rparr>)"
    using download_file_size_limit [OF b, THEN conjunct1, rule_format,
            OF conjI [OF url_abc conjI [OF nf p3]]] l3
    by (simp only: if_False)
  have w3: "files (snd (download_file (serves ''abc'') ''https://drive.google.com/file/d/abc/view''
         ''p.unitypackage'' (3 / 2 ^ 30) empty_world)) ''p.unitypackage'' = Some ''abc''"
    unfolding r3 by simp
  have n3: "files empty_world ''p.unitypackage'' \<noteq> Some ''abc''" using nf by simp
  have le: "length ''abc'' \<le> (3::nat)"
    using download_file_size_limit [OF b, THEN conjunct2, THEN spec, THEN spec, THEN mp,
            OF conjI [OF w3 n3]]
    by (rule conjunct2)
  have a: "fst (download_file (serves ''abcd'') ''https://drive.google.com/file/d/abc/view'' ''p.unitypackage''
         (3 / 2 ^ 30) empty_world) = None"
    and b': "files (snd (download_file (serves ''abcd'') ''https://drive.google.com/file/d/abc/view''
         ''p.unitypackage'' (3 / 2 ^ 30) empty_world)) ''p.unitypackage'' = None"
    unfolding r4 by (simp_all add: empty_world_def)
  have c: "fst (download_file (serves ''abc'') ''https://drive.google.com/file/d/abc/view'' ''p.unitypackage''
         (3 / 2 ^ 30) empty_world) = Some ''p.unitypackage''"
    unfolding r3 by simp
  show ?thesis by (intro conjI a b' c w3 n3 le)
qed

text \<open>
  The handshake where it works: when the first body is detected as the large-file page
  and a token \<open>confirm=<id>\<close> can be extracted from it, \<open>download_file\<close> requests
  the direct URL again with \<open>&confirm=<token>\<close> appended, and the second body is the
  payload that is size-checked and written.
\<close>

lemma interstitial_handshake:
  assumes "extract_file_id url = Some file_id"
    and "files w output_name = None"
    and "net (length (requests w)) (get_direct_download_url file_id, ua_first) = Body content"
    and "interstitial content"
    and "re_search ''confirm='' id_char content = Some token"
    and "net (Suc (length (requests w)))
           (get_direct_download_url file_id @ ''&confirm='' @ token, ua_confirm) = Body content2"
    and "(of_nat (length content2) :: rat) \<le> max_size_gb * 1024 * 1024 * 1024"
  shows "download_file net url output_name max_size_gb w =
          (Some output_name,
           w\<lparr>files := (files w)(output_name \<mapsto> content2),
              requests := requests w @ [(get_direct_download_url file_id, ua_first),
                                        (get_direct_download_url file_id @ ''&confirm='' @ token,
                                         ua_confirm)],
              session_files := session_files w @ [output_name]\<rparr>)"
proof -
  from assms(7) have sz: "\<not> (of_nat (length content2) :: rat) / (1024 * 1024) > max_size_gb * 1024"
    by (simp add: field_simps)
  have "fetch_payload net (get_direct_download_url file_id) w =
          (Some content2,
           w\<lparr>requests := requests w @ [(get_direct_download_url file_id, ua_first),
                (get_direct_download_url file_id @ ''&confirm='' @ token, ua_confirm)]\<rparr>)"
    using assms(3-6) by (simp add: fetch_payload_def Let_def)
  with assms(1,2) sz show ?thesis by (simp add: download_file_def Let_def)
qed

lemma interstitial_handshake_example:
  "files (snd (download_file handshake_host ''https://drive.google.com/file/d/abc/view''
                 ''p.unitypackage'' 5 empty_world)) ''p.unitypackage'' = Some ''PAYLOAD''
   \<and> requests (snd (download_file handshake_host ''https://drive.google.com/file/d/abc/view''
                 ''p.unitypackage'' 5 empty_world))
     = [(get_direct_download_url ''abc'', ua_first),
        (get_direct_download_url ''abc'' @ ''&confirm=Ab1_'', ua_confirm)]"
proof -
  have nf: "files empty_world ''p.unitypackage'' = None" by (simp add: empty_world_def)
  have n1: "handshake_host (length (requests empty_world)) (get_direct_download_url ''abc'', ua_first)
            = Body ''Virus scan warning: /uc?export=download&confirm=Ab1_&id=abc''"
    by (simp add: handshake_host_def empty_world_def)
  have n2: "handshake_host (Suc (length (requests empty_world)))
              (get_direct_download_url ''abc'' @ ''&confirm='' @ ''Ab1_'', ua_confirm) = Body ''PAYLOAD''"
    by (simp add: handshake_host_def)
  have sz: "(of_nat (length ''PAYLOAD'') :: rat) \<le> 5 * 1024 * 1024 * 1024" by simp
  have 1: "download_file handshake_host ''https://drive.google.com/file/d/abc/view'' ''p.unitypackage'' 5 empty_world
        = (Some ''p.unitypackage'',
           empty_world\<lparr>files := (files empty_world)(''p.unitypackage'' \<mapsto> ''PAYLOAD''),
              requests := requests empty_world @ [(get_direct_download_url ''abc'', ua_first),
                            (get_direct_download_url ''abc'' @ ''&confirm='' @ ''Ab1_'', ua_confirm)],
              session_files := session_files empty_world @ [''p.unitypackage'']\<rparr>)"
    using interstitial_handshake [where net = handshake_host and w = empty_world
            and content = "''Virus scan warning: /uc?export=download&confirm=Ab1_&id=abc''",
            OF url_abc nf n1 page_token(1) page_token(2) n2 sz] .
  show ?thesis unfolding 1 by (simp add: empty_world_def)
qed

text \<open>
  Claim C7. The claim fails for a first body that is detected as the large-file page by
  its warning text and carries no \<open>confirm=<id>\<close> token: lines 86 to 97 detect the page
  and find no token, nothing handles that case, and the code goes on to the size check
  with the page as payload. One request is made, the page itself is written to the
  destination as the package, and the call returns the file as a success. The claim asks
  that the page is never what is persisted.
\<close>

theorem interstitial_without_token_saves_page:
  "interstitial ''<title>Google Drive - Virus scan warning</title>''
   \<and> fst (download_file (serves ''<title>Google Drive - Virus scan warning</title>'')
            ''https://drive.google.com/file/d/abc/view'' ''p.unitypackage'' 5 empty_world)
       = Some ''p.unitypackage''
   \<and> files (snd (download_file (serves ''<title>Google Drive - Virus scan warning</title>'')
            ''https://drive.google.com/file/d/abc/view'' ''p.unitypackage'' 5 empty_world))
         ''p.unitypackage''
       = Some ''<title>Google Drive - Virus scan warning</title>''
   \<and> requests (snd (download_file (serves ''<title>Google Drive - Virus scan warning</title>'')
            ''https://drive.google.com/file/d/abc/view'' ''p.unitypackage'' 5 empty_world))
       = [(get_direct_download_url ''abc'', ua_first)]"
proof -
  have p: "fetch_payload (serves ''<title>Google Drive - Virus scan warning</title>'')
             (get_direct_download_url ''abc'') empty_world
           = (Some ''<title>Google Drive - Virus scan warning</title>'',
              empty_world\<lparr>requests := [(get_direct_download_url ''abc'', ua_first)]\<rparr>)"
    using page_plain by (simp add: fetch_payload_def serves_def Let_def empty_world_def)
  have "download_file (serves ''<title>Google Drive - Virus scan warning</title>'')
            ''https://drive.google.com/file/d/abc/view'' ''p.unitypackage'' 5 empty_world
        = (Some ''p.unitypackage'',
           empty_world\<lparr>requests := [(get_direct_download_url ''abc'', ua_first)],
                files := [''p.unitypackage'' \<mapsto> ''<title>Google Drive - Virus scan warning</title>''],
                session_files := [''p.unitypackage'']\<rparr>)"
    using url_abc p by (simp add: download_file_def Let_def empty_world_def)
  then show ?thesis using page_plain(1) by (simp add: empty_world_def)
qed

text \<open>
  Claim C10. When the external tool ran and exited with a nonzero status, or left no
  file, \<open>download_with_curl\<close> returns nothing and the download directory is as
  before the call: whatever the tool left at the destination is removed. The network
  path then runs against the clean destination: \<open>download_file\<close> in that state does
  not take the already-exists branch but issues a request, and \<open>download_package\<close>
  is that call.
\<close>

theorem curl_failure_clean:
  assumes "extract_file_id url = Some file_id"
    and "files w output_name = None"
    and "curl (length (curl_runs w)) (get_direct_download_url file_id) output_name
           = CurlExit returncode left"
    and "returncode \<noteq> 0 \<or> left = None"
  shows "download_with_curl net curl url output_name w =
           (None, w\<lparr>curl_runs := curl_runs w @ [get_direct_download_url file_id]\<rparr>)
         \<and> files (snd (download_with_curl net curl url output_name w)) = files w
         \<and> requests (snd (download_file net url output_name max_size_gb
                            (snd (download_with_curl net curl url output_name w)))) \<noteq> requests w
         \<and> (i_url ins = url \<and>
            output_name = replace_char (CHR '' '') (CHR ''_'')
                            (replace_char (CHR ''/'') (CHR ''_'') (i_name ins)) @ ''.unitypackage'' \<longrightarrow>
            download_package net curl ins w =
              download_file net url output_name 5
                (w\<lparr>curl_runs := curl_runs w @ [get_direct_download_url file_id]\<rparr>))"
proof -
  let ?w1 = "w\<lparr>curl_runs := curl_runs w @ [get_direct_download_url file_id]\<rparr>"
  have u: "(files w)(output_name := None) = files w"
    using assms(2) by (simp add: fun_upd_idem)
  have c: "download_with_curl net curl url output_name w = (None, ?w1)"
    using assms u by (auto simp: download_with_curl_def get_direct_download_url_def Let_def)
  obtain pr w2 where fp: "fetch_payload net (get_direct_download_url file_id) ?w1 = (pr, w2)"
    by (cases "fetch_payload net (get_direct_download_url file_id) ?w1") auto
  from fetch_payload_frame [OF fp] obtain rs where rs: "rs \<noteq> []" "requests w2 = requests w @ rs"
    by auto
  have "requests (snd (download_file net url output_name max_size_gb ?w1)) = requests w2"
    using assms(1,2) fp by (cases pr) (auto simp: download_file_def Let_def)
  with rs have r: "requests (snd (download_file net url output_name max_size_gb ?w1)) \<noteq> requests w"
    by simp
  have p: "i_url ins = url \<and>
            output_name = replace_char (CHR '' '') (CHR ''_'')
                            (replace_char (CHR ''/'') (CHR ''_'') (i_name ins)) @ ''.unitypackage'' \<longrightarrow>
            download_package net curl ins w = download_file net url output_name 5 ?w1"
    using c by (auto simp: download_package_def Let_def)
  from c r p show ?thesis by simp
qed

theorem curl_failure_clean_witness:
  "download_with_curl offline curl_partial ''https://drive.google.com/file/d/abc/view''
      ''p.unitypackage'' empty_world
   = (None, empty_world\<lparr>curl_runs := [get_direct_download_url ''abc'']\<rparr>)
   \<and> files (snd (download_with_curl offline curl_partial ''https://drive.google.com/file/d/abc/view''
      ''p.unitypackage'' empty_world)) ''p.unitypackage'' = None
   \<and> download_package offline curl_partial
        \<lparr>i_name = ''p'', i_path = ''/proj/Assets/Packages/p/DownloadInstructions.txt'',
         i_url = ''https://drive.google.com/file/d/abc/view'',
         i_relative_path = ''Assets/Packages/p/DownloadInstructions.txt''\<rparr> empty_world
     = download_file offline ''https://drive.google.com/file/d/abc/view'' ''p.unitypackage'' 5
         (empty_world\<lparr>curl_runs := [get_direct_download_url ''abc'']\<rparr>)"
proof -
  have nf: "files empty_world ''p.unitypackage'' = None" by (simp add: empty_world_def)
  have c: "curl_partial (length (curl_runs empty_world)) (get_direct_download_url ''abc'')
             ''p.unitypackage'' = CurlExit 1 (Some ''partial'')"
    by (simp add: curl_partial_def)
  have rc: "(1::int) \<noteq> 0 \<or> Some ''partial'' = None" by simp
  note t = curl_failure_clean [where net = offline and curl = curl_partial, OF url_abc nf c rc]
  have 1: "download_with_curl offline curl_partial ''https://drive.google.com/file/d/abc/view''
      ''p.unitypackage'' empty_world
   = (None, empty_world\<lparr>curl_runs := [get_direct_download_url ''abc'']\<rparr>)"
    using t [THEN conjunct1] by (simp add: empty_world_def)
  have 2: "files (snd (download_with_curl offline curl_partial ''https://drive.google.com/file/d/abc/view''
      ''p.unitypackage'' empty_world)) ''p.unitypackage'' = None"
    using t [THEN conjunct2, THEN conjunct1] nf by simp
  have n: "i_url \<lparr>i_name = ''p'', i_path = ''/proj/Assets/Packages/p/DownloadInstructions.txt'',
         i_url = ''https://drive.google.com/file/d/abc/view'',
         i_relative_path = ''Assets/Packages/p/DownloadInstructions.txt''\<rparr>
         = ''https://drive.google.com/file/d/abc/view'' \<and>
       ''p.unitypackage'' = replace_char (CHR '' '') (CHR ''_'') (replace_char (CHR ''/'') (CHR ''_'')
         (i_name \<lparr>i_name = ''p'', i_path = ''/proj/Assets/Packages/p/DownloadInstructions.txt'',
         i_url = ''https://drive.google.com/file/d/abc/view'',
         i_relative_path = ''Assets/Packages/p/DownloadInstructions.txt''\<rparr>)) @ ''.unitypackage''"
    by (simp add: replace_char_def)
  have 3: "download_package offline curl_partial
        \<lparr>i_name = ''p'', i_path = ''/proj/Assets/Packages/p/DownloadInstructions.txt'',
         i_url = ''https://drive.google.com/file/d/abc/view'',
         i_relative_path = ''Assets/Packages/p/DownloadInstructions.txt''\<rparr> empty_world
     = download_file offline ''https://drive.google.com/file/d/abc/view'' ''p.unitypackage'' 5
         (empty_world\<lparr>curl_runs := [get_direct_download_url ''abc'']\<rparr>)"
    using t [THEN conjunct2, THEN conjunct2, THEN conjunct2, THEN mp, OF n]
    by (simp add: empty_world_def)
  show ?thesis by (intro conjI 1 2 3)
qed

section \<open>Properties of the discovery functions\<close>

text \<open>Substrings, and what the link pattern of the download discovery matches.\<close>

lemma contains_here: "starts_with sub s \<Longrightarrow> contains sub s"
  by (cases s) (auto simp: starts_with_def)

lemma contains_append: "contains sub (pre @ sub @ rest)"
proof (induction pre)
  case Nil
  have "starts_with sub (sub @ rest)" by (simp add: starts_with_def)
  then show ?case by (simp add: contains_here)
next
  case (Cons a pre)
  then show ?case by simp
qed

lemma contains_iff: "contains sub s \<longleftrightarrow> (\<exists>pre rest. s = pre @ sub @ rest)"
proof
  show "contains sub s \<Longrightarrow> \<exists>pre rest. s = pre @ sub @ rest"
  proof (induction s)
    case Nil
    then show ?case by simp
  next
    case (Cons a s)
    show ?case
    proof (cases "starts_with sub (a # s)")
      case True
      then have "a # s = [] @ sub @ drop (length sub) (a # s)"
        by (metis append_Nil append_take_drop_id starts_with_def)
      then show ?thesis by blast
    next
      case False
      with Cons.prems have "contains sub s" by simp
      with Cons.IH obtain pre rest where "s = pre @ sub @ rest" by blast
      then have "a # s = (a # pre) @ sub @ rest" by simp
      then show ?thesis by blast
    qed
  qed
next
  show "\<exists>pre rest. s = pre @ sub @ rest \<Longrightarrow> contains sub s"
    using contains_append by blast
qed

lemma re_search_Some_iff:
  "re_search lit cls s \<noteq> None \<longleftrightarrow> (\<exists>pre c rest. s = pre @ lit @ c # rest \<and> cls c)"
proof
  assume "re_search lit cls s \<noteq> None"
  then obtain i where "match_here lit cls (drop i s) \<noteq> None"
    by (auto simp: re_search_None_iff)
  then obtain c rest where d: "drop i s = lit @ c # rest" and c: "cls c"
    using match_here_iff by blast
  have "s = take i s @ lit @ c # rest" using d by (metis append_take_drop_id)
  with c show "\<exists>pre c rest. s = pre @ lit @ c # rest \<and> cls c" by blast
next
  assume "\<exists>pre c rest. s = pre @ lit @ c # rest \<and> cls c"
  then obtain pre c rest where s: "s = pre @ lit @ c # rest" and c: "cls c" by blast
  have "drop (length pre) s = lit @ c # rest" using s by simp
  then have m: "match_here lit cls (drop (length pre) s) \<noteq> None"
    using c match_here_iff by blast
  have "length pre \<le> length s" using s by simp
  with m show "re_search lit cls s \<noteq> None" by (auto simp: re_search_None_iff)
qed

lemma re_findall_empty_iff: "re_findall lit cls s = [] \<longleftrightarrow> re_search lit cls s = None"
proof (induction lit cls s rule: re_findall.induct)
  case (1 lit cls s)
  show ?case
  proof (cases "match_here lit cls s")
    case (Some g)
    then have "re_search lit cls s = Some g" by (rule re_search_here)
    moreover have "re_findall lit cls s \<noteq> []" using Some by (subst re_findall.simps) simp
    ultimately show ?thesis by simp
  next
    case None
    show ?thesis
    proof (cases s)
      case Nil
      with None show ?thesis by (subst re_findall.simps) simp
    next
      case (Cons c cs)
      have "re_findall lit cls cs = [] \<longleftrightarrow> re_search lit cls cs = None"
        using None Cons "1.IH" by blast
      moreover have "re_findall lit cls s = re_findall lit cls cs"
        using None Cons by (subst re_findall.simps) simp
      moreover have "re_search lit cls s = re_search lit cls cs"
        using None Cons by simp
      ultimately show ?thesis by simp
    qed
  qed
qed

lemma drive_matches_iff:
  "drive_matches content \<noteq> [] \<longleftrightarrow>
     (\<exists>pre c rest. content = pre @ ''https://drive.google.com/'' @ c # rest \<and> non_space c)"
  unfolding drive_matches_def re_findall_empty_iff by (rule re_search_Some_iff)

lemma drive_matches_contains:
  assumes "drive_matches content \<noteq> []"
  shows "contains ''drive.google.com'' content"
proof -
  from assms obtain pre c rest where "content = pre @ ''https://drive.google.com/'' @ c # rest"
    using drive_matches_iff by blast
  then have "content = (pre @ ''https://'') @ ''drive.google.com'' @ (''/'' @ c # rest)" by simp
  then show ?thesis using contains_append by metis
qed

text \<open>
  The two loops of the sync discovery: when they return, there is one record per pointer
  file, in order; they return when no name derivation raises.
\<close>

lemma package_info_name:
  "package_name parts = (case package_info parts of Inl e \<Rightarrow> Inl e | Inr (n, p) \<Rightarrow> Inr n)"
  by (simp add: package_name_def package_info_def split: option.splits)

lemma scan_sync_Inr:
  "scan_sync fs acc = Inr ps \<Longrightarrow>
     map p_instructions_file ps = map p_instructions_file acc @ map pf_parts fs
     \<and> map p_has_link ps = map p_has_link acc @ map has_drive_link fs
     \<and> map (\<lambda>p. Inr (p_name p)) ps
         = map (\<lambda>p. Inr (p_name p)) acc @ map (\<lambda>f. package_name (pf_parts f)) fs"
proof (induction fs arbitrary: acc)
  case Nil
  then show ?case by simp
next
  case (Cons f fs)
  from Cons.prems obtain n p where i: "package_info (pf_parts f) = Inr (n, p)"
    by (auto split: sum.splits)
  let ?acc = "acc @ [\<lparr>p_name = n, p_path = p, p_instructions_file = pf_parts f,
                       p_has_link = has_drive_link f\<rparr>]"
  from Cons.prems i have "scan_sync fs ?acc = Inr ps" by simp
  from Cons.IH [OF this] i show ?case by (simp add: package_info_name)
qed

lemma scan_sync_total:
  "\<forall>f\<in>set fs. package_name (pf_parts f) \<noteq> Inl ValueError \<Longrightarrow> \<exists>ps. scan_sync fs acc = Inr ps"
proof (induction fs arbitrary: acc)
  case Nil
  then show ?case by simp
next
  case (Cons f fs)
  from Cons.prems have "package_name (pf_parts f) \<noteq> Inl ValueError" by simp
  then obtain n p where i: "package_info (pf_parts f) = Inr (n, p)"
    by (auto simp: package_name_def package_info_def split: option.splits if_splits)
  from Cons.prems have "\<forall>f\<in>set fs. package_name (pf_parts f) \<noteq> Inl ValueError" by simp
  from Cons.IH [OF this] i show ?case by simp
qed

lemma sync_roots_Inr:
  "sync_roots roots acc = Inr ps \<Longrightarrow>
     map p_instructions_file ps = map p_instructions_file acc @ map pf_parts (pointer_files roots)
     \<and> map p_has_link ps = map p_has_link acc @ map has_drive_link (pointer_files roots)
     \<and> map (\<lambda>p. Inr (p_name p)) ps
         = map (\<lambda>p. Inr (p_name p)) acc @ map (\<lambda>f. package_name (pf_parts f)) (pointer_files roots)"
proof (induction roots arbitrary: acc)
  case Nil
  then show ?case by (simp add: pointer_files_def)
next
  case (Cons r rs)
  show ?case
  proof (cases "root_exists r")
    case False
    with Cons.prems have "sync_roots rs acc = Inr ps" by simp
    from Cons.IH [OF this] False show ?thesis by (simp add: pointer_files_def)
  next
    case True
    with Cons.prems obtain acc' where a: "scan_sync (root_files r) acc = Inr acc'"
      and b: "sync_roots rs acc' = Inr ps"
      by (auto split: sum.splits)
    from scan_sync_Inr [OF a] Cons.IH [OF b] True show ?thesis
      by (simp add: pointer_files_def)
  qed
qed

lemma sync_roots_total:
  "\<forall>f\<in>set (pointer_files roots). package_name (pf_parts f) \<noteq> Inl ValueError \<Longrightarrow>
   \<exists>ps. sync_roots roots acc = Inr ps"
proof (induction roots arbitrary: acc)
  case Nil
  then show ?case by simp
next
  case (Cons r rs)
  show ?case
  proof (cases "root_exists r")
    case False
    with Cons.prems have "\<forall>f\<in>set (pointer_files rs). package_name (pf_parts f) \<noteq> Inl ValueError"
      by (simp add: pointer_files_def)
    from Cons.IH [OF this] False show ?thesis by simp
  next
    case True
    with Cons.prems have 1: "\<forall>f\<in>set (root_files r). package_name (pf_parts f) \<noteq> Inl ValueError"
      and 2: "\<forall>f\<in>set (pointer_files rs). package_name (pf_parts f) \<noteq> Inl ValueError"
      by (auto simp: pointer_files_def)
    from scan_sync_total [OF 1] obtain acc' where a: "scan_sync (root_files r) acc = Inr acc'"
      by blast
    from Cons.IH [OF 2] a True show ?thesis by simp
  qed
qed

text \<open>The loops of the download discovery keep the files that yield a record.\<close>

lemma scan_download_map_filter:
  "scan_download project fs = List.map_filter (instruction_of project) fs"
  by (induction fs) (auto simp: List.map_filter_simps split: option.splits)

lemma find_download_instructions_map_filter:
  "find_download_instructions project roots
   = List.map_filter (instruction_of project) (pointer_files roots)"
  by (induction roots)
     (auto simp: pointer_files_def scan_download_map_filter List.map_filter_def)

lemma instruction_of_Some:
  "instruction_of project f = Some ins \<Longrightarrow>
     \<exists>c m ms. pf_text f = Some c \<and> drive_matches c = m # ms \<and> i_url ins = m
        \<and> package_name (pf_parts f) = Inr (i_name ins) \<and> i_path ins = path_str (pf_parts f)"
  by (auto simp: instruction_of_def split: option.splits list.splits sum.splits if_splits)

text \<open>
  The name rule where it holds: a path that does not contain the vendor name gets the
  name of the parent directory; a path with a part equal to the vendor name gets
  \<open>LeartesStudios/<next part>\<close> when a directory follows the first such part, and the
  bare vendor name when the file name follows it.
\<close>

lemma contains_join: "x \<in> set ps \<Longrightarrow> contains x (join_parts ps)"
proof (induction ps rule: join_parts.induct)
  case 1
  then show ?case by simp
next
  case (2 p)
  then have "join_parts [p] = [] @ x @ []" by simp
  then show ?case by (metis contains_append)
next
  case (3 p q ps)
  show ?case
  proof (cases "x = p")
    case True
    then have "join_parts (p # q # ps) = [] @ x @ (''/'' @ join_parts (q # ps))" by simp
    then show ?thesis by (metis contains_append)
  next
    case False
    with "3.prems" have "x \<in> set (q # ps)" by simp
    with "3.IH" obtain pre rest where "join_parts (q # ps) = pre @ x @ rest"
      using contains_iff by blast
    then have "join_parts (p # q # ps) = (p @ ''/'' @ pre) @ x @ rest" by simp
    then show ?thesis by (metis contains_append)
  qed
qed

lemma contains_path_str: "x \<in> set parts \<Longrightarrow> contains x (path_str parts)"
proof (cases parts)
  case Nil
  assume "x \<in> set parts"
  with Nil show ?thesis by simp
next
  case (Cons p ps)
  assume x: "x \<in> set parts"
  show ?thesis
  proof (cases "p = ''/''")
    case False
    with Cons x show ?thesis by (simp add: path_str_def contains_join)
  next
    case True
    show ?thesis
    proof (cases "x = p")
      case True
      with \<open>p = ''/''\<close> Cons have "path_str parts = [] @ x @ join_parts ps"
        by (simp add: path_str_def)
      then show ?thesis by (metis contains_append)
    next
      case False
      with x Cons have "x \<in> set ps" by simp
      then obtain pre rest where "join_parts ps = pre @ x @ rest"
        using contains_join contains_iff by blast
      with \<open>p = ''/''\<close> Cons have "path_str parts = (''/'' @ pre) @ x @ rest"
        by (simp add: path_str_def)
      then show ?thesis by (metis contains_append)
    qed
  qed
qed

lemma index_of_first: "x \<notin> set pre \<Longrightarrow> index_of x (pre @ x # rest) = Some (length pre)"
  by (induction pre) auto

lemma package_name_rule:
  "(\<not> contains ''LeartesStudios'' (path_str parts) \<longrightarrow> package_name parts = Inr (parent_name parts))
   \<and> (''LeartesStudios'' \<notin> set pre \<longrightarrow>
        package_name (pre @ [''LeartesStudios'', sub] @ mid @ [file]) = Inr (''LeartesStudios/'' @ sub))
   \<and> (''LeartesStudios'' \<notin> set pre \<longrightarrow>
        package_name (pre @ [''LeartesStudios'', file]) = Inr ''LeartesStudios'')"
proof (intro conjI impI)
  assume "\<not> contains ''LeartesStudios'' (path_str parts)"
  then show "package_name parts = Inr (parent_name parts)" by (simp add: package_name_def)
next
  assume a: "''LeartesStudios'' \<notin> set pre"
  let ?parts = "pre @ [''LeartesStudios'', sub] @ mid @ [file]"
  have c: "contains ''LeartesStudios'' (path_str ?parts)" by (intro contains_path_str) simp
  have i: "index_of ''LeartesStudios'' ?parts = Some (length pre)"
    using index_of_first [OF a] by simp
  have n: "?parts ! (length pre + 1) = sub" by (simp add: nth_append)
  from c i n show "package_name ?parts = Inr (''LeartesStudios/'' @ sub)"
    by (simp add: package_name_def)
next
  assume a: "''LeartesStudios'' \<notin> set pre"
  let ?parts = "pre @ [''LeartesStudios'', file]"
  have c: "contains ''LeartesStudios'' (path_str ?parts)" by (intro contains_path_str) simp
  have i: "index_of ''LeartesStudios'' ?parts = Some (length pre)"
    using index_of_first [OF a] by simp
  from c i show "package_name ?parts = Inr ''LeartesStudios''"
    by (simp add: package_name_def)
qed

text \<open>
  Claim C4. The rule fails for a pointer file in a directory whose name contains the vendor
  name without being equal to it: the substring test of line 205 (line 86 of the sync
  script) succeeds, \<open>parts.index\<close> finds no part and raises ValueError. The sync
  discovery raises; the download discovery drops the file. The rule asks for the name of
  the parent directory, \<open>LeartesStudiosExtra\<close>.
\<close>

theorem vendor_lookalike_raises:
  "pf_parts vendor_lookalike
     = [''/'', ''proj'', ''Assets'', ''Packages'', ''LeartesStudiosExtra'', ''DownloadInstructions.txt'']
   \<and> package_name (pf_parts vendor_lookalike) = Inl ValueError
   \<and> find_packages_to_sync [\<lparr>root_exists = True, root_files = [vendor_lookalike]\<rparr>] = Inl ValueError
   \<and> find_download_instructions project_dir [\<lparr>root_exists = True, root_files = [vendor_lookalike]\<rparr>] = []"
  by code_simp

text \<open>
  Claim C5, as amended. Discovery does not deduplicate. When the sync discovery returns,
  its records are, in order, one per pointer file under the existing roots, each with the
  name derived from that file's path; the records of the download discovery are, in
  order, one per pointer file that yields a record, each with the name derived from that
  file's path. So a name occurs in the result as often as there are such pointer files
  that derive it.
\<close>

theorem discovery_one_record_per_file:
  "(find_packages_to_sync roots = Inr ps \<longrightarrow>
      map p_instructions_file ps = map pf_parts (pointer_files roots) \<and>
      map (\<lambda>p. Inr (p_name p)) ps = map (\<lambda>f. package_name (pf_parts f)) (pointer_files roots))
   \<and> map (\<lambda>i. Inr (i_name i)) (find_download_instructions project roots)
       = map (\<lambda>f. package_name (pf_parts f))
           (filter (\<lambda>f. instruction_of project f \<noteq> None) (pointer_files roots))"
proof (intro conjI impI)
  assume a: "find_packages_to_sync roots = Inr ps"
  then have "sync_roots roots [] = Inr ps" by (simp add: find_packages_to_sync_def)
  from sync_roots_Inr [OF this]
  show "map p_instructions_file ps = map pf_parts (pointer_files roots)"
    and "map (\<lambda>p. Inr (p_name p)) ps = map (\<lambda>f. package_name (pf_parts f)) (pointer_files roots)"
    by simp_all
next
  have "map (\<lambda>i. Inr (i_name i)) (List.map_filter (instruction_of project) fs)
        = map (\<lambda>f. package_name (pf_parts f)) (filter (\<lambda>f. instruction_of project f \<noteq> None) fs)"
    for fs
  proof (induction fs)
    case Nil
    then show ?case by (simp add: List.map_filter_simps)
  next
    case (Cons f fs)
    show ?case
    proof (cases "instruction_of project f")
      case None
      with Cons show ?thesis by (simp add: List.map_filter_simps)
    next
      case (Some ins)
      from instruction_of_Some [OF Some] have "package_name (pf_parts f) = Inr (i_name ins)"
        by blast
      with Cons Some show ?thesis by (simp add: List.map_filter_simps)
    qed
  qed
  then show "map (\<lambda>i. Inr (i_name i)) (find_download_instructions project roots)
       = map (\<lambda>f. package_name (pf_parts f))
           (filter (\<lambda>f. instruction_of project f \<noteq> None) (pointer_files roots))"
    by (simp add: find_download_instructions_map_filter)
qed

lemma duplicate_sync:
  "find_packages_to_sync duplicate_roots =
     Inr [\<lparr>p_name = ''Common'', p_path = [''/'', ''proj'', ''Assets'', ''Packages'', ''Common''],
           p_instructions_file = [''/'', ''proj'', ''Assets'', ''Packages'', ''Common'',
                                  ''DownloadInstructions.txt''],
           p_has_link = True\<rparr>,
          \<lparr>p_name = ''Common'', p_path = [''/'', ''proj'', ''Assets'', ''Audio'', ''Common''],
           p_instructions_file = [''/'', ''proj'', ''Assets'', ''Audio'', ''Common'',
                                  ''DownloadInstructions.txt''],
           p_has_link = True\<rparr>]"
  by code_simp

theorem discovery_one_record_per_file_witness:
  "map (\<lambda>f. package_name (pf_parts f)) (pointer_files duplicate_roots)
   = [Inr ''Common'', Inr ''Common'']"
  using discovery_one_record_per_file [THEN conjunct1, rule_format, OF duplicate_sync]
  by simp

text \<open>
  Claim C5 as stated fails for two pointer files whose parent directories have the same
  name, one under \<open>Assets/Packages\<close> and one under \<open>Assets/Audio\<close>: both discovery
  functions return the name twice.
\<close>

theorem discovery_duplicate_names_counterexample:
  "map i_name (find_download_instructions project_dir duplicate_roots) = [''Common'', ''Common'']
   \<and> find_packages_to_sync duplicate_roots =
     Inr [\<lparr>p_name = ''Common'', p_path = [''/'', ''proj'', ''Assets'', ''Packages'', ''Common''],
           p_instructions_file = [''/'', ''proj'', ''Assets'', ''Packages'', ''Common'',
                                  ''DownloadInstructions.txt''],
           p_has_link = True\<rparr>,
          \<lparr>p_name = ''Common'', p_path = [''/'', ''proj'', ''Assets'', ''Audio'', ''Common''],
           p_instructions_file = [''/'', ''proj'', ''Assets'', ''Audio'', ''Common'',
                                  ''DownloadInstructions.txt''],
           p_has_link = True\<rparr>]"
  by code_simp

text \<open>
  Claim C8, as amended. The sync discovery returns a record for every pointer file under
  the existing roots, in order, when no name derivation raises: a file without a link (or
  one that cannot be read) yields a record with \<open>has_link\<close> false. The download
  discovery returns records only for files that were read and hold a link match; the URL
  of a record is the first match.
\<close>

theorem sync_discovery_complete:
  "((\<forall>f\<in>set (pointer_files roots). package_name (pf_parts f) \<noteq> Inl ValueError) \<longrightarrow>
      (\<exists>ps. find_packages_to_sync roots = Inr ps \<and>
            length ps = length (pointer_files roots) \<and>
            map p_instructions_file ps = map pf_parts (pointer_files roots) \<and>
            map p_has_link ps = map has_drive_link (pointer_files roots)))
   \<and> (\<forall>i\<in>set (find_download_instructions project roots).
        \<exists>f\<in>set (pointer_files roots). \<exists>c.
          pf_text f = Some c \<and> drive_matches c \<noteq> [] \<and>
          i_url i = hd (drive_matches c) \<and> i_path i = path_str (pf_parts f))"
proof (intro conjI impI ballI)
  assume "\<forall>f\<in>set (pointer_files roots). package_name (pf_parts f) \<noteq> Inl ValueError"
  from sync_roots_total [OF this] obtain ps where ps: "sync_roots roots [] = Inr ps" by blast
  from sync_roots_Inr [OF ps]
  have m: "map p_instructions_file ps = map pf_parts (pointer_files roots)"
    "map p_has_link ps = map has_drive_link (pointer_files roots)" by simp_all
  from m(1) have "length ps = length (pointer_files roots)" by (metis length_map)
  with ps m show "\<exists>ps. find_packages_to_sync roots = Inr ps \<and>
            length ps = length (pointer_files roots) \<and>
            map p_instructions_file ps = map pf_parts (pointer_files roots) \<and>
            map p_has_link ps = map has_drive_link (pointer_files roots)"
    by (simp add: find_packages_to_sync_def)
next
  fix i assume "i \<in> set (find_download_instructions project roots)"
  then obtain f where f: "f \<in> set (pointer_files roots)" "instruction_of project f = Some i"
    by (auto simp: find_download_instructions_map_filter List.map_filter_def)
  from instruction_of_Some [OF f(2)] f(1)
  show "\<exists>f\<in>set (pointer_files roots). \<exists>c.
          pf_text f = Some c \<and> drive_matches c \<noteq> [] \<and>
          i_url i = hd (drive_matches c) \<and> i_path i = path_str (pf_parts f)"
    by force
qed

lemma scenario_names:
  "map (\<lambda>f. package_name (pf_parts f)) (pointer_files scenario_roots) = [Inr ''TestPkg'', Inr ''Background'']"
  by code_simp

lemma scenario_links:
  "map has_drive_link (pointer_files scenario_roots) = [True, False]"
  by code_simp

lemma scenario_count: "length (pointer_files scenario_roots) = 2"
  by code_simp

lemma length_filter_map: "length (filter P xs) = length (filter id (map P xs))"
  by (induction xs) auto

lemma scenario_download:
  "find_download_instructions project_dir scenario_roots =
     [\<lparr>i_name = ''TestPkg'',
       i_path = ''/proj/Assets/Packages/TestPkg/DownloadInstructions.txt'',
       i_url = ''https://drive.google.com/file/d/test123/view?usp=sharing'',
       i_relative_path = ''Assets/Packages/TestPkg/DownloadInstructions.txt''\<rparr>]"
  by code_simp

theorem sync_discovery_complete_witness:
  "(\<exists>ps. find_packages_to_sync scenario_roots = Inr ps \<and> length ps = 2 \<and>
         map p_has_link ps = [True, False] \<and> length (filter p_has_link ps) = 1)
   \<and> (\<exists>f\<in>set (pointer_files scenario_roots). \<exists>c.
         pf_text f = Some c \<and> drive_matches c \<noteq> [] \<and>
         hd (drive_matches c) = ''https://drive.google.com/file/d/test123/view?usp=sharing'' \<and>
         path_str (pf_parts f) = ''/proj/Assets/Packages/TestPkg/DownloadInstructions.txt'')"
proof -
  have "\<forall>f\<in>set (pointer_files scenario_roots). package_name (pf_parts f) \<noteq> Inl ValueError"
  proof
    fix f assume "f \<in> set (pointer_files scenario_roots)"
    then have "package_name (pf_parts f) \<in> set (map (\<lambda>f. package_name (pf_parts f)) (pointer_files scenario_roots))"
      by simp
    then show "package_name (pf_parts f) \<noteq> Inl ValueError"
      unfolding scenario_names by auto
  qed
  from sync_discovery_complete [THEN conjunct1, THEN mp, OF this]
  obtain ps where ps: "find_packages_to_sync scenario_roots = Inr ps"
    "length ps = length (pointer_files scenario_roots)"
    "map p_has_link ps = map has_drive_link (pointer_files scenario_roots)"
    by blast
  from ps(2) have l: "length ps = 2" by (simp only: scenario_count)
  from ps(3) have hl: "map p_has_link ps = [True, False]" by (simp only: scenario_links)
  have "length (filter p_has_link ps) = length (filter id [True, False])"
    by (simp only: length_filter_map [of p_has_link ps] hl)
  then have c: "length (filter p_has_link ps) = 1" by simp
  have 1: "\<exists>ps. find_packages_to_sync scenario_roots = Inr ps \<and> length ps = 2 \<and>
         map p_has_link ps = [True, False] \<and> length (filter p_has_link ps) = 1"
    by (intro exI [of _ ps] conjI ps(1) l hl c)
  let ?i = "\<lparr>i_name = ''TestPkg'',
       i_path = ''/proj/Assets/Packages/TestPkg/DownloadInstructions.txt'',
       i_url = ''https://drive.google.com/file/d/test123/view?usp=sharing'',
       i_relative_path = ''Assets/Packages/TestPkg/DownloadInstructions.txt''\<rparr>"
  have "?i \<in> set (find_download_instructions project_dir scenario_roots)"
    unfolding scenario_download by simp
  from sync_discovery_complete [THEN conjunct2, THEN bspec, OF this]
  obtain f d where f: "f \<in> set (pointer_files scenario_roots)" "pf_text f = Some d"
    "drive_matches d \<noteq> []" "i_url ?i = hd (drive_matches d)" "i_path ?i = path_str (pf_parts f)"
    by blast
  from f(4) have u: "hd (drive_matches d) = ''https://drive.google.com/file/d/test123/view?usp=sharing''"
    by simp
  from f(5) have p: "path_str (pf_parts f) = ''/proj/Assets/Packages/TestPkg/DownloadInstructions.txt''"
    by simp
  have 2: "\<exists>f\<in>set (pointer_files scenario_roots). \<exists>c.
         pf_text f = Some c \<and> drive_matches c \<noteq> [] \<and>
         hd (drive_matches c) = ''https://drive.google.com/file/d/test123/view?usp=sharing'' \<and>
         path_str (pf_parts f) = ''/proj/Assets/Packages/TestPkg/DownloadInstructions.txt''"
    using f(1,2,3) u p by blast
  from 1 2 show ?thesis by (rule conjI)
qed

text \<open>
  Claim C8 as stated fails for the download discovery: for one package with a link and
  one without, it returns one record, not two.
\<close>

theorem download_discovery_skips_counterexample:
  "length (pointer_files scenario_roots) = 2
   \<and> map i_name (find_download_instructions project_dir scenario_roots) = [''TestPkg'']
   \<and> map i_url (find_download_instructions project_dir scenario_roots)
       = [''https://drive.google.com/file/d/test123/view?usp=sharing'']"
  by code_simp

text \<open>
  Claim C9. The sync discovery sets \<open>has_link\<close> exactly when its read of the file
  succeeds and the text it gets contains \<open>drive.google.com\<close>. The download discovery
  yields a record only when its read succeeds and the text it gets holds a match of the
  link pattern, that is \<open>https://drive.google.com/\<close> followed by a character that is
  not white space; a text with such a match contains the host name. For a pointer file
  whose text as the sync script reads it contains the host name, and whose text as the
  download script reads it (when that read succeeds) holds no match of the link pattern,
  the download discovery produces no record, the sync discovery produces a record with
  \<open>has_link\<close> true, and \<open>sync_package\<close> on that record returns success without
  exporting, uploading or writing anything.
\<close>

theorem link_tests_differ:
  "(has_drive_link f = (\<exists>c. pf_text_locale f = Some c \<and> contains ''drive.google.com'' c))
   \<and> ((drive_matches c \<noteq> []) =
        (\<exists>pre ch rest. c = pre @ ''https://drive.google.com/'' @ ch # rest \<and> non_space ch))
   \<and> (drive_matches c \<noteq> [] \<longrightarrow> contains ''drive.google.com'' c)
   \<and> (instruction_of project f \<noteq> None \<longrightarrow>
        (\<exists>d. pf_text f = Some d \<and> drive_matches d \<noteq> []))
   \<and> (pf_text_locale f = Some c \<and> contains ''drive.google.com'' c \<and>
      (case pf_text f of None \<Rightarrow> True | Some d \<Rightarrow> drive_matches d = []) \<longrightarrow>
        has_drive_link f \<and>
        find_download_instructions project [\<lparr>root_exists = True, root_files = [f]\<rparr>] = [] \<and>
        (\<forall>n p. package_info (pf_parts f) = Inr (n, p) \<longrightarrow>
           find_packages_to_sync [\<lparr>root_exists = True, root_files = [f]\<rparr>]
             = Inr [\<lparr>p_name = n, p_path = p, p_instructions_file = pf_parts f, p_has_link = True\<rparr>] \<and>
           sync_package gd now_text now_iso
             \<lparr>p_name = n, p_path = p, p_instructions_file = pf_parts f, p_has_link = True\<rparr>
             use_placeholder w = Inr (True, w)))"
proof (intro conjI impI allI)
  show "has_drive_link f = (\<exists>c. pf_text_locale f = Some c \<and> contains ''drive.google.com'' c)"
    by (simp add: has_drive_link_def split: option.splits)
next
  show "(drive_matches c \<noteq> []) =
        (\<exists>pre ch rest. c = pre @ ''https://drive.google.com/'' @ ch # rest \<and> non_space ch)"
    by (rule drive_matches_iff)
next
  assume "drive_matches c \<noteq> []"
  then show "contains ''drive.google.com'' c" by (rule drive_matches_contains)
next
  assume a: "instruction_of project f \<noteq> None"
  then obtain ins where "instruction_of project f = Some ins" by blast
  from instruction_of_Some [OF this] obtain c' where c': "pf_text f = Some c'" "drive_matches c' \<noteq> []"
    by auto
  then show "\<exists>d. pf_text f = Some d \<and> drive_matches d \<noteq> []" by blast
next
  assume a: "pf_text_locale f = Some c \<and> contains ''drive.google.com'' c \<and>
      (case pf_text f of None \<Rightarrow> True | Some d \<Rightarrow> drive_matches d = [])"
  then show "has_drive_link f" by (simp add: has_drive_link_def)
  from a have "instruction_of project f = None"
    by (simp add: instruction_of_def split: option.splits)
  then show "find_download_instructions project [\<lparr>root_exists = True, root_files = [f]\<rparr>] = []"
    by simp
next
  fix n p
  assume a: "pf_text_locale f = Some c \<and> contains ''drive.google.com'' c \<and>
      (case pf_text f of None \<Rightarrow> True | Some d \<Rightarrow> drive_matches d = [])"
    and i: "package_info (pf_parts f) = Inr (n, p)"
  from a have "has_drive_link f" by (simp add: has_drive_link_def)
  with i show "find_packages_to_sync [\<lparr>root_exists = True, root_files = [f]\<rparr>]
             = Inr [\<lparr>p_name = n, p_path = p, p_instructions_file = pf_parts f, p_has_link = True\<rparr>]"
    by (simp add: find_packages_to_sync_def)
next
  fix n p
  show "sync_package gd now_text now_iso
             \<lparr>p_name = n, p_path = p, p_instructions_file = pf_parts f, p_has_link = True\<rparr>
             use_placeholder w = Inr (True, w)"
    by (simp add: sync_package_def)
qed

lemma bare_facts:
  "pf_text_locale bare_mention = Some ''see drive.google.com for the package''
   \<and> contains ''drive.google.com'' ''see drive.google.com for the package''
   \<and> (case pf_text bare_mention of None \<Rightarrow> True | Some d \<Rightarrow> drive_matches d = [])"
  by code_simp

lemma undecodable_facts:
  "pf_text_locale undecodable_mention = Some ''see drive.google.com for the package''
   \<and> contains ''drive.google.com'' ''see drive.google.com for the package''
   \<and> (case pf_text undecodable_mention of None \<Rightarrow> True | Some d \<Rightarrow> drive_matches d = [])"
  by code_simp

lemma bare_info:
  "package_info (pf_parts bare_mention) = Inr (''Notes'', [''/'', ''proj'', ''Assets'', ''Packages'', ''Notes''])"
  by code_simp

lemma linked_record:
  "instruction_of project_dir
     (pointer_at [''Assets'', ''Packages'', ''TestPkg'']
        ''Download from:\<newline>https://drive.google.com/file/d/test123/view?usp=sharing\<newline>'')
   \<noteq> None"
  by code_simp

theorem link_tests_differ_witness:
  "has_drive_link bare_mention
   \<and> find_download_instructions project_dir [\<lparr>root_exists = True, root_files = [bare_mention]\<rparr>] = []
   \<and> find_packages_to_sync [\<lparr>root_exists = True, root_files = [bare_mention]\<rparr>]
       = Inr [\<lparr>p_name = ''Notes'', p_path = [''/'', ''proj'', ''Assets'', ''Packages'', ''Notes''],
               p_instructions_file = pf_parts bare_mention, p_has_link = True\<rparr>]
   \<and> sync_package gdrive_down ''2024-01-01 00:00:00'' ''2024-01-01T00:00:00''
        \<lparr>p_name = ''Notes'', p_path = [''/'', ''proj'', ''Assets'', ''Packages'', ''Notes''],
         p_instructions_file = pf_parts bare_mention, p_has_link = True\<rparr> True sync_start
       = Inr (True, sync_start)
   \<and> has_drive_link undecodable_mention
   \<and> find_download_instructions project_dir
        [\<lparr>root_exists = True, root_files = [undecodable_mention]\<rparr>] = []
   \<and> (\<exists>d. pf_text (pointer_at [''Assets'', ''Packages'', ''TestPkg'']
           ''Download from:\<newline>https://drive.google.com/file/d/test123/view?usp=sharing\<newline>'')
           = Some d \<and> drive_matches d \<noteq> [])"
proof -
  note t = link_tests_differ [where f = bare_mention and c = "''see drive.google.com for the package''",
      THEN conjunct2, THEN conjunct2, THEN conjunct2, THEN conjunct2, THEN mp, OF bare_facts]
  from t have 1: "has_drive_link bare_mention" by (rule conjunct1)
  from t have 2: "find_download_instructions project_dir [\<lparr>root_exists = True, root_files = [bare_mention]\<rparr>] = []"
    by blast
  from t bare_info have 3: "find_packages_to_sync [\<lparr>root_exists = True, root_files = [bare_mention]\<rparr>]
       = Inr [\<lparr>p_name = ''Notes'', p_path = [''/'', ''proj'', ''Assets'', ''Packages'', ''Notes''],
               p_instructions_file = pf_parts bare_mention, p_has_link = True\<rparr>]"
    by blast
  from t bare_info have 4: "sync_package gdrive_down ''2024-01-01 00:00:00'' ''2024-01-01T00:00:00''
        \<lparr>p_name = ''Notes'', p_path = [''/'', ''proj'', ''Assets'', ''Packages'', ''Notes''],
         p_instructions_file = pf_parts bare_mention, p_has_link = True\<rparr> True sync_start
       = Inr (True, sync_start)"
    by blast
  note u = link_tests_differ [where f = undecodable_mention
      and c = "''see drive.google.com for the package''",
      THEN conjunct2, THEN conjunct2, THEN conjunct2, THEN conjunct2, THEN mp, OF undecodable_facts]
  from u have 5: "has_drive_link undecodable_mention" by (rule conjunct1)
  from u have 6: "find_download_instructions project_dir
        [\<lparr>root_exists = True, root_files = [undecodable_mention]\<rparr>] = []"
    by blast
  have 7: "\<exists>d. pf_text (pointer_at [''Assets'', ''Packages'', ''TestPkg'']
           ''Download from:\<newline>https://drive.google.com/file/d/test123/view?usp=sharing\<newline>'')
           = Some d \<and> drive_matches d \<noteq> []"
    using link_tests_differ [THEN conjunct2, THEN conjunct2, THEN conjunct2, THEN conjunct1, THEN mp,
            OF linked_record] .
  from 1 2 3 4 5 6 7 show ?thesis by (intro conjI)
qed

section \<open>Properties of \<open>_load_config\<close>\<close>

text \<open>
  Where the load follows the specification: a missing file and a file that is not JSON
  give the default document; a JSON object is merged over it key by key, so that a
  persisted key wins (the last occurrence of the key), a default key that the file does
  not have keeps its default, and a key the defaults do not have is kept.
\<close>

lemma merge_items_lookup:
  "merge_items d kvs k =
     (case k of
        KStr s \<Rightarrow> (case map_of (rev kvs) s of Some v \<Rightarrow> Some v | None \<Rightarrow> d k)
      | KNone \<Rightarrow> d k
      | KNum r \<Rightarrow> d k)"
proof (induction kvs arbitrary: d)
  case Nil
  then show ?case by (simp split: pykey.splits)
next
  case (Cons kv kvs)
  obtain k' v' where kv: "kv = (k', v')" by (cases kv)
  show ?case
    unfolding kv by (simp add: Cons.IH map_add_def split: pykey.splits option.splits)
qed

lemma load_config_cases:
  "load_config default_config Missing = Inr (map_of default_config)
   \<and> load_config default_config InvalidJSON = Inr (map_of default_config)
   \<and> (\<exists>d. load_config default_config (Parsed (JObj kvs)) = Inr d \<and>
          (\<forall>k. d (KStr k) = (case map_of (rev kvs) k of
                              Some v \<Rightarrow> Some v
                            | None \<Rightarrow> map_of default_config (KStr k))))"
  by (simp add: load_config_def dict_update_def merge_items_lookup)

text \<open>
  Claim C3. The load fails the caller for a file that holds JSON which is not an object:
  \<open>dict.update\<close> raises TypeError (ValueError for a string that is not empty), and only
  JSONDecodeError is caught. So does a file that cannot be opened.
\<close>

theorem load_config_not_an_object_raises:
  "sync_load_config (Parsed (JNum 42)) = Inl TypeError
   \<and> export_load_config (Parsed (JNum 42)) = Inl TypeError
   \<and> sync_load_config (Parsed JNull) = Inl TypeError
   \<and> sync_load_config (Parsed (JStr ''abc'')) = Inl ValueError
   \<and> sync_load_config (Parsed (JArr [JNum 1])) = Inl TypeError
   \<and> sync_load_config OpenFails = Inl OSError"
  by (simp add: sync_load_config_def export_load_config_def load_config_def dict_update_def)

end
